theory Spec2Isabelle
  imports Complex_Main "HOL-Library.Sublist"
begin

section \<open>Arrays, the store and exceptions\<close>

text \<open>
  The auto-encoder of \<^verbatim>\<open>convolutional_auto_encoder.pyx\<close> only orchestrates: it calls
  methods of the layer objects and of the optimizer, copies and reshapes numpy arrays,
  writes one attribute and logs. Arrays are mutable and shared, so they live in a store:
  an \<open>ndarray\<close> is a handle (a shape and the address of its data buffer), and the
  \<open>world\<close> holds the buffers together with the opaque state of the collaborators
  (weights, cached inputs, the random generator of dropout). The elements of a buffer
  are never read by this class, so their type \<open>'a\<close> is left open.
\<close>

type_synonym addr = nat

record ndarray =
  shape :: "nat list"
  buf :: addr

record ('a, 'x) world =
  heap :: "'a list list"
  extern :: 'x

text \<open>
  An exception is either raised by a collaborator (\<open>Raised\<close>, carrying its type and
  content as one value), or it is one of the two \<^verbatim>\<open>ValueError\<close>s this file can cause
  itself: Cython validates the buffer on every assignment to a variable declared
  \<^verbatim>\<open>np.ndarray[DOUBLE_t, ndim=n]\<close> (\<open>BufferNdim expected got\<close>), and numpy's
  \<^verbatim>\<open>reshape\<close> refuses a shape of another size (\<open>ReshapeSize\<close>).
\<close>

datatype 'e exn = Raised 'e | BufferNdim nat nat | ReshapeSize

type_synonym ('a, 'x, 'e) result = "('e exn + ndarray) \<times> ('a, 'x) world"

type_synonym ('a, 'x, 'e) py_method = "ndarray \<Rightarrow> ('a, 'x) world \<Rightarrow> ('a, 'x, 'e) result"

text \<open>
  The collaborators, as far as this class uses them. A method takes the array and the
  world and returns the array it produced or the exception it raised, with the world as
  it left it in either case. \<^verbatim>\<open>convolve\<close> takes the keyword argument \<^verbatim>\<open>no_bias_flag\<close>
  as well, which is \<open>None\<close> when the call leaves it to its default.
\<close>

record ('a, 'x, 'e) activating_function =
  activate :: "('a, 'x, 'e) py_method"
  forward :: "('a, 'x, 'e) py_method"
  backward :: "('a, 'x, 'e) py_method"

record ('a, 'x, 'e) synapse =
  activation_function :: "('a, 'x, 'e) activating_function"
  deactivation_function :: "('a, 'x, 'e) activating_function"

record ('a, 'x, 'e) convolution_layer =
  convolve :: "bool option \<Rightarrow> ('a, 'x, 'e) py_method"
  deconvolve :: "('a, 'x, 'e) py_method"
  back_propagate :: "('a, 'x, 'e) py_method"
  layer_graph :: "('a, 'x, 'e) synapse"

record ('a, 'x, 'e) optimizer =
  dropout_rate :: real
  dropout :: "('a, 'x, 'e) py_method"
  de_dropout :: "('a, 'x, 'e) py_method"

text \<open>
  The instance: its two attributes that are fixed after construction, and the state
  that the methods change (the world, the attribute \<^verbatim>\<open>__feature_points_arr\<close> and the
  debug messages this class has sent to its logger).
\<close>

record ('a, 'x, 'e) convolutional_auto_encoder =
  layerable_cnn_list :: "('a, 'x, 'e) convolution_layer list"
  opt_params :: "('a, 'x, 'e) optimizer"

record ('a, 'x) state =
  world :: "('a, 'x) world"
  feature_points_arr :: "ndarray option"
  logger :: "string list"

section \<open>numpy and Cython primitives\<close>

text \<open>\<^verbatim>\<open>arr.copy()\<close>: a new buffer with the same elements, and a handle of the same shape.\<close>

definition np_copy :: "ndarray \<Rightarrow> ('a, 'x) world \<Rightarrow> ndarray \<times> ('a, 'x) world" where
  "np_copy t w = (t\<lparr>buf := length (heap w)\<rparr>, w\<lparr>heap := heap w @ [heap w ! buf t]\<rparr>)"

definition size_of :: "ndarray \<Rightarrow> nat" where
  "size_of t = prod_list (shape t)"

text \<open>
  \<^verbatim>\<open>t.reshape((t.shape[0], -1))\<close>. numpy infers the dimension written \<open>-1\<close> and raises
  \<^verbatim>\<open>ValueError\<close> when the known dimensions multiply to zero or do not divide the size.
  The result is a view: it shares the buffer (arrays are taken to be C-contiguous).
\<close>

definition reshape_rows :: "ndarray \<Rightarrow> 'e exn + ndarray" where
  "reshape_rows t =
     (let known = shape t ! 0 in
      if known = 0 then Inl ReshapeSize
      else if size_of t mod known \<noteq> 0 then Inl ReshapeSize
      else Inr (t\<lparr>shape := [known, size_of t div known]\<rparr>))"

text \<open>\<^verbatim>\<open>h.reshape((t.shape[0], t.shape[1], t.shape[2], t.shape[3]))\<close>.\<close>

definition reshape_like :: "ndarray \<Rightarrow> ndarray \<Rightarrow> 'e exn + ndarray" where
  "reshape_like h t =
     (let new_shape = [shape t ! 0, shape t ! 1, shape t ! 2, shape t ! 3] in
      if size_of h \<noteq> prod_list new_shape then Inl ReshapeSize
      else Inr (h\<lparr>shape := new_shape\<rparr>))"

text \<open>
  An assignment to a variable declared \<^verbatim>\<open>np.ndarray[DOUBLE_t, ndim=n]\<close>: the value
  is kept when it has \<open>n\<close> dimensions, otherwise the assignment raises.
\<close>

definition typed :: "nat \<Rightarrow> ('a, 'x, 'e) result \<Rightarrow> ('a, 'x, 'e) result" where
  "typed n r =
     (case r of
        (Inl e, w) \<Rightarrow> (Inl e, w)
      | (Inr t, w) \<Rightarrow>
          if length (shape t) = n then (Inr t, w)
          else (Inl (BufferNdim n (length (shape t))), w))"

text \<open>Two statements in a row inside one \<^verbatim>\<open>try\<close>: the second runs if the first returned.\<close>

definition and_then ::
  "('a, 'x, 'e) result \<Rightarrow> ('a, 'x, 'e) py_method \<Rightarrow> ('a, 'x, 'e) result" where
  "and_then r f = (case r of (Inl e, w) \<Rightarrow> (Inl e, w) | (Inr t, w) \<Rightarrow> f t w)"

text \<open>\<^verbatim>\<open>str(n)\<close> for a non-negative integer.\<close>

function str :: "nat \<Rightarrow> string" where
  "str n =
     (if n < 10 then [''0123456789'' ! n]
      else str (n div 10) @ [''0123456789'' ! (n mod 10)])"
  by pat_completeness auto
termination
  by (relation "measure id") auto

declare str.simps [simp del]

section \<open>The loops over the layers\<close>

text \<open>
  All four loops of the class have one form (lines 127--133, 148--155, 172--177 and
  191--199):
  \<^verbatim>\<open>
  for i in range(len(lst)):
      try:
          arr = ... lst[i] ... arr ...
      except:
          self.__logger.debug(... i ...)
          raise
  \<close>
  \<open>layer_loop body msg lst i arr s\<close> runs it from index \<open>i\<close>: \<open>body\<close> is what the
  \<^verbatim>\<open>try\<close> block does with one layer, \<open>msg i\<close> the message of the handler.
\<close>

function layer_loop ::
  "(('a, 'x, 'e) convolution_layer \<Rightarrow> ('a, 'x, 'e) py_method) \<Rightarrow> (nat \<Rightarrow> string) \<Rightarrow>
   ('a, 'x, 'e) convolution_layer list \<Rightarrow> nat \<Rightarrow> ndarray \<Rightarrow> ('a, 'x) state \<Rightarrow>
   ('e exn + ndarray) \<times> ('a, 'x) state" where
  "layer_loop body msg lst i arr s =
     (if i < length lst then
        (case body (lst ! i) arr (world s) of
           (Inl e, w) \<Rightarrow> (Inl e, s\<lparr>world := w, logger := logger s @ [msg i]\<rparr>)
         | (Inr arr', w) \<Rightarrow> layer_loop body msg lst (i + 1) arr' (s\<lparr>world := w\<rparr>))
      else (Inr arr, s))"
  by pat_completeness auto
termination
  by (relation "measure (\<lambda>(body, msg, lst, i, arr, s). length lst - i)") auto

declare layer_loop.simps [simp del]

section \<open>The class\<close>

text \<open>
  \<^verbatim>\<open>__init__\<close> (lines 32--110). The class attribute of line 30 makes
  \<^verbatim>\<open>__feature_points_arr\<close> read as \<^verbatim>\<open>None\<close> on a new instance; the constructor
  does not assign it. \<open>w\<close> is the world as the constructor of the base class left it.
\<close>

definition init :: "('a, 'x) world \<Rightarrow> ('a, 'x) state" where
  "init w =
     \<lparr>world = w, feature_points_arr = None,
      logger = [''Setup Convolutional Auto-Encoder and the parameters.'']\<rparr>"

text \<open>
  The body of the \<^verbatim>\<open>try\<close> block of the encoder loop (lines 129--130). \<^verbatim>\<open>convolve\<close> is
  called without \<^verbatim>\<open>no_bias_flag\<close>.
\<close>

definition encode_body :: "('a, 'x, 'e) convolution_layer \<Rightarrow> ('a, 'x, 'e) py_method" where
  "encode_body layer img_arr w =
     and_then (typed 4 (convolve layer None img_arr w))
       (\<lambda>img_arr w. typed 4 (activate (activation_function (layer_graph layer)) img_arr w))"

definition encode_msg :: "nat \<Rightarrow> string" where
  "encode_msg i = ''Error raised in Convolution layer '' @ str (i + 1)"

text \<open>The body of the \<^verbatim>\<open>try\<close> block of the decoder loop (lines 150--152).\<close>

definition decode_body :: "('a, 'x, 'e) convolution_layer \<Rightarrow> ('a, 'x, 'e) py_method" where
  "decode_body layer img_arr w =
     and_then
       (and_then (typed 4 (backward (activation_function (layer_graph layer)) img_arr w))
          (\<lambda>img_arr w. typed 4 (deconvolve layer img_arr w)))
       (\<lambda>img_arr w. typed 4 (activate (deactivation_function (layer_graph layer)) img_arr w))"

definition decode_msg :: "nat \<Rightarrow> string" where
  "decode_msg i = ''Error raised in Deconvolution layer '' @ str (i + 1)"

text \<open>
  Lines 137--145 and 180--188: when the rate is positive, the array is flattened to
  two dimensions, handed to \<open>f\<close> (\<^verbatim>\<open>dropout\<close> or \<^verbatim>\<open>de_dropout\<close>), whose result is
  assigned to the two-dimensional \<^verbatim>\<open>hidden_activity_arr\<close>, and reshaped with the four
  dimensions of the array as it was. No handler surrounds these lines.
\<close>

definition hidden_activity ::
  "real \<Rightarrow> ('a, 'x, 'e) py_method \<Rightarrow> ('a, 'x, 'e) py_method" where
  "hidden_activity rate f arr w =
     (if rate > 0 then
        (case reshape_rows arr of
           Inl e \<Rightarrow> (Inl e, w)
         | Inr hidden_activity_arr \<Rightarrow>
             (case typed 2 (f hidden_activity_arr w) of
                (Inl e, w') \<Rightarrow> (Inl e, w')
              | (Inr hidden_activity_arr, w') \<Rightarrow>
                  (case reshape_like hidden_activity_arr arr of
                     Inl e \<Rightarrow> (Inl e, w')
                   | Inr arr' \<Rightarrow> (Inr arr', w'))))
      else (Inr arr, w))"

text \<open>The encoder loop (lines 127--133) and the decoder loop (lines 147--155).\<close>

definition encoder ::
  "('a, 'x, 'e) convolutional_auto_encoder \<Rightarrow> ndarray \<Rightarrow> ('a, 'x) state \<Rightarrow>
   ('e exn + ndarray) \<times> ('a, 'x) state" where
  "encoder self img_arr s =
     layer_loop encode_body encode_msg (layerable_cnn_list self) 0 img_arr s"

definition decoder ::
  "('a, 'x, 'e) convolutional_auto_encoder \<Rightarrow> ndarray \<Rightarrow> ('a, 'x) state \<Rightarrow>
   ('e exn + ndarray) \<times> ('a, 'x) state" where
  "decoder self img_arr s =
     (let layerable_cnn_list = rev (layerable_cnn_list self) in
      layer_loop decode_body decode_msg layerable_cnn_list 0 img_arr s)"

text \<open>Line 135: \<^verbatim>\<open>self.__feature_points_arr = img_arr.copy()\<close>.\<close>

definition keep_feature_points :: "ndarray \<Rightarrow> ('a, 'x) state \<Rightarrow> ('a, 'x) state" where
  "keep_feature_points img_arr s =
     (case np_copy img_arr (world s) of
        (c, w) \<Rightarrow> s\<lparr>world := w, feature_points_arr := Some c\<rparr>)"

text \<open>
  \<^verbatim>\<open>forward_propagation\<close> (lines 112--157). The argument is declared with four
  dimensions, so the call itself raises for another array.
\<close>

definition forward_propagation ::
  "('a, 'x, 'e) convolutional_auto_encoder \<Rightarrow> ndarray \<Rightarrow> ('a, 'x) state \<Rightarrow>
   ('e exn + ndarray) \<times> ('a, 'x) state" where
  "forward_propagation self img_arr s =
     (if length (shape img_arr) \<noteq> 4 then (Inl (BufferNdim 4 (length (shape img_arr))), s)
      else
        (case encoder self img_arr s of
           (Inl e, s1) \<Rightarrow> (Inl e, s1)
         | (Inr img_arr, s1) \<Rightarrow>
             (let s2 = keep_feature_points img_arr s1 in
              (case hidden_activity (dropout_rate (opt_params self))
                      (dropout (opt_params self)) img_arr (world s2) of
                 (Inl e, w3) \<Rightarrow> (Inl e, s2\<lparr>world := w3\<rparr>)
               | (Inr img_arr, w3) \<Rightarrow> decoder self img_arr (s2\<lparr>world := w3\<rparr>)))))"

text \<open>The bodies and messages of the two loops of \<^verbatim>\<open>back_propagation\<close>.\<close>

definition delta_conv_body :: "('a, 'x, 'e) convolution_layer \<Rightarrow> ('a, 'x, 'e) py_method" where
  "delta_conv_body layer delta_arr w = typed 4 (convolve layer (Some True) delta_arr w)"

definition delta_conv_msg :: "nat \<Rightarrow> string" where
  "delta_conv_msg i = ''Backward raised error in Convolution layer '' @ str (i + 1)"

definition delta_body :: "('a, 'x, 'e) convolution_layer \<Rightarrow> ('a, 'x, 'e) py_method" where
  "delta_body layer delta_arr w =
     and_then (typed 4 (back_propagate layer delta_arr w))
       (\<lambda>delta_arr w. typed 4 (forward (deactivation_function (layer_graph layer)) delta_arr w))"

definition delta_msg :: "nat \<Rightarrow> nat \<Rightarrow> string" where
  "delta_msg n i = ''Delta computation raised an error in CNN layer '' @ str (n - i)"

text \<open>The first loop (lines 172--177) and the second, over the reversed list (190--199).\<close>

definition convolve_delta ::
  "('a, 'x, 'e) convolutional_auto_encoder \<Rightarrow> ndarray \<Rightarrow> ('a, 'x) state \<Rightarrow>
   ('e exn + ndarray) \<times> ('a, 'x) state" where
  "convolve_delta self delta_arr s =
     layer_loop delta_conv_body delta_conv_msg (layerable_cnn_list self) 0 delta_arr s"

definition propagate_delta ::
  "('a, 'x, 'e) convolutional_auto_encoder \<Rightarrow> ndarray \<Rightarrow> ('a, 'x) state \<Rightarrow>
   ('e exn + ndarray) \<times> ('a, 'x) state" where
  "propagate_delta self delta_arr s =
     (let layerable_cnn_list = rev (layerable_cnn_list self) in
      layer_loop delta_body (delta_msg (length layerable_cnn_list)) layerable_cnn_list 0
        delta_arr s)"

text \<open>\<^verbatim>\<open>back_propagation\<close> (lines 159--201).\<close>

definition back_propagation ::
  "('a, 'x, 'e) convolutional_auto_encoder \<Rightarrow> ndarray \<Rightarrow> ('a, 'x) state \<Rightarrow>
   ('e exn + ndarray) \<times> ('a, 'x) state" where
  "back_propagation self delta_arr s =
     (if length (shape delta_arr) \<noteq> 4 then (Inl (BufferNdim 4 (length (shape delta_arr))), s)
      else
        (case convolve_delta self delta_arr s of
           (Inl e, s1) \<Rightarrow> (Inl e, s1)
         | (Inr delta_arr, s1) \<Rightarrow>
             (case hidden_activity (dropout_rate (opt_params self))
                     (de_dropout (opt_params self)) delta_arr (world s1) of
                (Inl e, w2) \<Rightarrow> (Inl e, s1\<lparr>world := w2\<rparr>)
              | (Inr delta_arr, w2) \<Rightarrow> propagate_delta self delta_arr (s1\<lparr>world := w2\<rparr>))))"

text \<open>\<^verbatim>\<open>extract_feature_points_arr\<close> (lines 203--211) returns the attribute itself.\<close>

definition extract_feature_points_arr :: "('a, 'x) state \<Rightarrow> ndarray option" where
  "extract_feature_points_arr s = feature_points_arr s"

section \<open>Notions used to state the properties\<close>

text \<open>
  The composition of the bodies of a loop over a list of layers, without handler and
  without instance: each body gets the array and the world the one before it left, and
  the first exception ends the run.
\<close>

fun chain ::
  "(('a, 'x, 'e) convolution_layer \<Rightarrow> ('a, 'x, 'e) py_method) \<Rightarrow>
   ('a, 'x, 'e) convolution_layer list \<Rightarrow> ('a, 'x, 'e) py_method" where
  "chain body [] arr w = (Inr arr, w)"
| "chain body (layer # rest) arr w = and_then (body layer arr w) (chain body rest)"

text \<open>
  \<open>composed3 f g h\<close> is \<open>h (g (f arr))\<close> as three assignments to \<^verbatim>\<open>img_arr\<close>.
\<close>

definition composed3 ::
  "('a, 'x, 'e) py_method \<Rightarrow> ('a, 'x, 'e) py_method \<Rightarrow> ('a, 'x, 'e) py_method \<Rightarrow> ('a, 'x, 'e) py_method" where
  "composed3 f g h arr w =
     and_then (and_then (typed 4 (f arr w)) (\<lambda>arr w. typed 4 (g arr w)))
       (\<lambda>arr w. typed 4 (h arr w))"

text \<open>
  The step of the decoder as the specification words it: the backward transform of the
  deactivation function, the deconvolution, the activate transform of the deactivation
  function.
\<close>

definition claimed_decode_step ::
  "('a, 'x, 'e) convolution_layer \<Rightarrow> ('a, 'x, 'e) py_method" where
  "claimed_decode_step layer =
     composed3 (backward (deactivation_function (layer_graph layer))) (deconvolve layer)
       (activate (deactivation_function (layer_graph layer)))"

text \<open>A caller overwriting the elements of an array it holds.\<close>

definition write_array :: "ndarray \<Rightarrow> 'a list \<Rightarrow> ('a, 'x) world \<Rightarrow> ('a, 'x) world" where
  "write_array arr d w = w\<lparr>heap := (heap w)[buf arr := d]\<rparr>"

text \<open>
  \<open>keeps p f\<close>: the method \<open>f\<close> has no reference to the buffer \<open>p\<close> of its own. Called
  with another array while \<open>p\<close> is allocated, it leaves \<open>p\<close> allocated and unchanged
  and does not return it.
\<close>

definition keeps :: "addr \<Rightarrow> ('a, 'x, 'e) py_method \<Rightarrow> bool" where
  "keeps p f \<longleftrightarrow>
     (\<forall>arr w. p < length (heap w) \<and> buf arr \<noteq> p \<longrightarrow>
        (case f arr w of
           (r, w') \<Rightarrow>
             p < length (heap w') \<and> heap w' ! p = heap w ! p \<and>
             (case r of Inl e \<Rightarrow> True | Inr arr' \<Rightarrow> buf arr' \<noteq> p)))"

definition function_keeps :: "addr \<Rightarrow> ('a, 'x, 'e) activating_function \<Rightarrow> bool" where
  "function_keeps p f \<longleftrightarrow> keeps p (activate f) \<and> keeps p (forward f) \<and> keeps p (backward f)"

definition layer_keeps :: "addr \<Rightarrow> ('a, 'x, 'e) convolution_layer \<Rightarrow> bool" where
  "layer_keeps p layer \<longleftrightarrow>
     (\<forall>no_bias_flag. keeps p (convolve layer no_bias_flag)) \<and>
     keeps p (deconvolve layer) \<and> keeps p (back_propagate layer) \<and>
     function_keeps p (activation_function (layer_graph layer)) \<and>
     function_keeps p (deactivation_function (layer_graph layer))"

text \<open>A message of the log refers to a text when the text occurs in it.\<close>

fun mentions :: "string \<Rightarrow> string \<Rightarrow> bool" where
  "mentions [] pat = (pat = [])"
| "mentions (c # cs) pat = (prefix pat (c # cs) \<or> mentions cs pat)"

text \<open>
  Encoding, then decoding: the bodies of the encoder loop over the stack, then the bodies
  of the decoder loop over the reversed stack, on the array the encoder ended with.
  Between the two only the copy for the cache is taken, which adds a buffer to the store
  and leaves the array as it is.
\<close>

definition encode_then_decode ::
  "('a, 'x, 'e) convolution_layer list \<Rightarrow> ('a, 'x, 'e) py_method" where
  "encode_then_decode layers arr w =
     and_then (chain encode_body layers arr w)
       (\<lambda>arr w. chain decode_body (rev layers) arr (snd (np_copy arr w)))"

text \<open>
  The shape contract. \<open>maps_shape f a b\<close>: whenever \<open>f\<close> returns on an array of shape
  \<open>a\<close>, the array it returns has shape \<open>b\<close>. A layer keeps the contract between an
  input shape and an output shape of the same batch dimension when its convolution
  takes the one to the other, its deconvolution takes it back, and its activation and
  deactivation functions keep the shape. A stack keeps it when each layer does, from
  the output shape of the layer before it (\<open>shs\<close> lists the output shapes in stack order).
\<close>

definition maps_shape :: "('a, 'x, 'e) py_method \<Rightarrow> nat list \<Rightarrow> nat list \<Rightarrow> bool" where
  "maps_shape f a b \<longleftrightarrow>
     (\<forall>arr w arr' w'. shape arr = a \<and> f arr w = (Inr arr', w') \<longrightarrow> shape arr' = b)"

definition layer_contract ::
  "('a, 'x, 'e) convolution_layer \<Rightarrow> nat list \<Rightarrow> nat list \<Rightarrow> bool" where
  "layer_contract layer sh_in sh_out \<longleftrightarrow>
     hd sh_out = hd sh_in \<and>
     maps_shape (convolve layer None) sh_in sh_out \<and>
     maps_shape (activate (activation_function (layer_graph layer))) sh_out sh_out \<and>
     maps_shape (backward (activation_function (layer_graph layer))) sh_out sh_out \<and>
     maps_shape (deconvolve layer) sh_out sh_in \<and>
     maps_shape (activate (deactivation_function (layer_graph layer))) sh_in sh_in"

fun stack_contract ::
  "('a, 'x, 'e) convolution_layer list \<Rightarrow> nat list \<Rightarrow> nat list list \<Rightarrow> bool" where
  "stack_contract [] sh [] = True"
| "stack_contract (layer # layers) sh (sh' # shs) =
     (layer_contract layer sh sh' \<and> stack_contract layers sh' shs)"
| "stack_contract _ _ _ = False"

text \<open>
  The contract as a promise to return: \<open>returns_shape f a b\<close> says that \<open>f\<close> returns on
  every array of shape \<open>a\<close>, in every world, an array of shape \<open>b\<close>.
\<close>

definition returns_shape :: "('a, 'x, 'e) py_method \<Rightarrow> nat list \<Rightarrow> nat list \<Rightarrow> bool" where
  "returns_shape f a b \<longleftrightarrow>
     (\<forall>arr w. shape arr = a \<longrightarrow> (\<exists>arr' w'. f arr w = (Inr arr', w') \<and> shape arr' = b))"

definition layer_returns ::
  "('a, 'x, 'e) convolution_layer \<Rightarrow> nat list \<Rightarrow> nat list \<Rightarrow> bool" where
  "layer_returns layer sh_in sh_out \<longleftrightarrow>
     length sh_out = 4 \<and>
     returns_shape (convolve layer None) sh_in sh_out \<and>
     returns_shape (activate (activation_function (layer_graph layer))) sh_out sh_out \<and>
     returns_shape (backward (activation_function (layer_graph layer))) sh_out sh_out \<and>
     returns_shape (deconvolve layer) sh_out sh_in \<and>
     returns_shape (activate (deactivation_function (layer_graph layer))) sh_in sh_in"

fun stack_returns ::
  "('a, 'x, 'e) convolution_layer list \<Rightarrow> nat list \<Rightarrow> nat list list \<Rightarrow> bool" where
  "stack_returns [] sh [] = True"
| "stack_returns (layer # layers) sh (sh' # shs) =
     (layer_returns layer sh sh' \<and> stack_returns layers sh' shs)"
| "stack_returns _ _ _ = False"

text \<open>The same for the optimizer: \<^verbatim>\<open>dropout\<close> returns an array of the shape it was given.\<close>

definition returns_same_shape :: "('a, 'x, 'e) py_method \<Rightarrow> bool" where
  "returns_same_shape f \<longleftrightarrow>
     (\<forall>arr w. \<exists>arr' w'. f arr w = (Inr arr', w') \<and> shape arr' = shape arr)"

section \<open>Example collaborators\<close>

text \<open>
  Small collaborators on which the functions above can be run: a method that returns
  its argument, one that returns a new array of a given shape, one that overwrites its
  argument in place, and one that raises.
\<close>

definition same :: "('a, 'x, 'e) py_method" where
  "same arr w = (Inr arr, w)"

definition filled :: "nat list \<Rightarrow> 'a \<Rightarrow> ('a, 'x, 'e) py_method" where
  "filled sh v arr w =
     (Inr \<lparr>shape = sh, buf = length (heap w)\<rparr>,
      w\<lparr>heap := heap w @ [replicate (prod_list sh) v]\<rparr>)"

definition zeroing :: "(nat, 'x, 'e) py_method" where
  "zeroing arr w = (Inr arr, w\<lparr>heap := (heap w)[buf arr := map (\<lambda>v. 0) (heap w ! buf arr)]\<rparr>)"

definition raising :: "'e \<Rightarrow> ('a, 'x, 'e) py_method" where
  "raising e arr w = (Inl (Raised e), w)"

definition same_function :: "('a, 'x, 'e) activating_function" where
  "same_function = \<lparr>activate = same, forward = same, backward = same\<rparr>"

definition plain_layer :: "nat list \<Rightarrow> nat list \<Rightarrow> (nat, unit, string) convolution_layer" where
  "plain_layer sh_in sh_out =
     \<lparr>convolve = (\<lambda>no_bias_flag. filled sh_out 5), deconvolve = filled sh_in 3,
      back_propagate = filled sh_in 1,
      layer_graph = \<lparr>activation_function = same_function,
                     deactivation_function = same_function\<rparr>\<rparr>"

definition ex_layer1 :: "(nat, unit, string) convolution_layer" where
  "ex_layer1 = plain_layer [2, 1, 1, 2] [2, 3, 1, 1]"

definition ex_layer2 :: "(nat, unit, string) convolution_layer" where
  "ex_layer2 = plain_layer [2, 3, 1, 1] [2, 1, 1, 1]"

definition no_dropout :: "(nat, unit, string) optimizer" where
  "no_dropout = \<lparr>dropout_rate = 0, dropout = raising ''unused'', de_dropout = raising ''unused''\<rparr>"

definition half_dropout :: "(nat, unit, string) optimizer" where
  "half_dropout = \<lparr>dropout_rate = 1 / 2, dropout = zeroing, de_dropout = zeroing\<rparr>"

definition ex_encoder :: "(nat, unit, string) convolutional_auto_encoder" where
  "ex_encoder = \<lparr>layerable_cnn_list = [ex_layer1, ex_layer2], opt_params = half_dropout\<rparr>"

definition ex_world :: "(nat, unit) world" where
  "ex_world = \<lparr>heap = [[1, 2, 3, 4]], extern = ()\<rparr>"

definition ex_arr :: ndarray where
  "ex_arr = \<lparr>shape = [2, 1, 1, 2], buf = 0\<rparr>"

definition ex_delta_broken :: "(nat, unit, string) convolutional_auto_encoder" where
  "ex_delta_broken =
     \<lparr>layerable_cnn_list = [ex_layer1\<lparr>back_propagate := raising ''boom''\<rparr>, ex_layer2],
      opt_params = half_dropout\<rparr>"

definition ex_deconv_broken :: "(nat, unit, string) convolutional_auto_encoder" where
  "ex_deconv_broken =
     \<lparr>layerable_cnn_list = [ex_layer1, ex_layer2\<lparr>deconvolve := raising ''boom''\<rparr>],
      opt_params = no_dropout\<rparr>"

definition ex_kinked_layer :: "(nat, unit, string) convolution_layer" where
  "ex_kinked_layer =
     \<lparr>convolve = (\<lambda>no_bias_flag. same), deconvolve = same, back_propagate = same,
      layer_graph =
        \<lparr>activation_function = same_function\<lparr>backward := filled [2, 1, 1, 1] 7\<rparr>,
         deactivation_function = same_function\<rparr>\<rparr>"

definition ex_kinked :: "(nat, unit, string) convolutional_auto_encoder" where
  "ex_kinked = \<lparr>layerable_cnn_list = [ex_kinked_layer], opt_params = no_dropout\<rparr>"

definition ex_plain :: "(nat, unit, string) convolutional_auto_encoder" where
  "ex_plain = \<lparr>layerable_cnn_list = [ex_layer1, ex_layer2], opt_params = no_dropout\<rparr>"

definition ex_conv_broken :: "(nat, unit, string) convolutional_auto_encoder" where
  "ex_conv_broken =
     \<lparr>layerable_cnn_list = [ex_layer1, ex_layer2\<lparr>convolve := (\<lambda>no_bias_flag. raising ''boom'')\<rparr>],
      opt_params = half_dropout\<rparr>"

definition ex_state :: "(nat, unit) state" where
  "ex_state = snd (forward_propagation ex_plain ex_arr (init ex_world))"

section \<open>Properties of the loops\<close>

lemma layer_loop_done:
  "\<not> i < length lst \<Longrightarrow> layer_loop body msg lst i arr s = (Inr arr, s)"
  by (simp add: layer_loop.simps [of body msg lst i])

lemma layer_loop_raise:
  "i < length lst \<Longrightarrow> body (lst ! i) arr (world s) = (Inl e, w) \<Longrightarrow>
   layer_loop body msg lst i arr s = (Inl e, s\<lparr>world := w, logger := logger s @ [msg i]\<rparr>)"
  by (simp add: layer_loop.simps [of body msg lst i])

lemma layer_loop_next:
  "i < length lst \<Longrightarrow> body (lst ! i) arr (world s) = (Inr arr', w) \<Longrightarrow>
   layer_loop body msg lst i arr s = layer_loop body msg lst (i + 1) arr' (s\<lparr>world := w\<rparr>)"
  by (simp add: layer_loop.simps [of body msg lst i])

lemma layer_loop_chain:
  "(fst (layer_loop body msg lst i arr s), world (snd (layer_loop body msg lst i arr s))) =
   chain body (drop i lst) arr (world s)"
proof (induction body msg lst i arr s rule: layer_loop.induct)
  case (1 body msg lst i arr s)
  show ?case
  proof (cases "i < length lst")
    case False
    then show ?thesis by (simp add: layer_loop_done)
  next
    case True
    then have d: "drop i lst = lst ! i # drop (i + 1) lst"
      by (simp add: Cons_nth_drop_Suc)
    obtain r w where b: "body (lst ! i) arr (world s) = (r, w)"
      by (cases "body (lst ! i) arr (world s)")
    show ?thesis
    proof (cases r)
      case (Inl e)
      with b True d show ?thesis
        by (simp add: layer_loop_raise and_then_def)
    next
      case (Inr t)
      with b True d "1.IH" [OF True b [symmetric] ] show ?thesis
        by (simp add: layer_loop_next and_then_def)
    qed
  qed
qed

lemma layer_loop_cache:
  "feature_points_arr (snd (layer_loop body msg lst i arr s)) = feature_points_arr s"
proof (induction body msg lst i arr s rule: layer_loop.induct)
  case (1 body msg lst i arr s)
  show ?case
  proof (cases "i < length lst")
    case False
    then show ?thesis by (simp add: layer_loop_done)
  next
    case True
    obtain r w where b: "body (lst ! i) arr (world s) = (r, w)"
      by (cases "body (lst ! i) arr (world s)")
    show ?thesis
    proof (cases r)
      case (Inl e)
      with b True show ?thesis by (simp add: layer_loop_raise)
    next
      case (Inr t)
      with b True "1.IH" [OF True b [symmetric] ] show ?thesis
        by (simp add: layer_loop_next)
    qed
  qed
qed

lemma layer_loop_logger:
  "layer_loop body msg lst i arr s = (Inr out, s') \<Longrightarrow> logger s' = logger s"
proof (induction body msg lst i arr s rule: layer_loop.induct)
  case (1 body msg lst i arr s)
  show ?case
  proof (cases "i < length lst")
    case False
    with "1.prems" show ?thesis by (simp add: layer_loop_done)
  next
    case True
    obtain r w where b: "body (lst ! i) arr (world s) = (r, w)"
      by (cases "body (lst ! i) arr (world s)")
    show ?thesis
    proof (cases r)
      case (Inl e)
      with b True "1.prems" show ?thesis by (simp add: layer_loop_raise)
    next
      case (Inr t)
      with b True "1.prems" "1.IH" [OF True b [symmetric] ] show ?thesis
        by (simp add: layer_loop_next)
    qed
  qed
qed

lemma layer_loop_raises_at:
  "chain body (take k (drop i lst)) arr (world s) = (Inr arr', w') \<Longrightarrow>
   i + k < length lst \<Longrightarrow> body (lst ! (i + k)) arr' w' = (Inl e, w'') \<Longrightarrow>
   layer_loop body msg lst i arr s =
     (Inl e, s\<lparr>world := w'', logger := logger s @ [msg (i + k)]\<rparr>)"
proof (induction k arbitrary: i arr s)
  case 0
  then show ?case by (simp add: layer_loop_raise)
next
  case (Suc k)
  from Suc.prems(2) have i: "i < length lst" by simp
  then have d: "drop i lst = lst ! i # drop (i + 1) lst"
    by (simp add: Cons_nth_drop_Suc)
  obtain r w where b: "body (lst ! i) arr (world s) = (r, w)"
    by (cases "body (lst ! i) arr (world s)")
  show ?case
  proof (cases r)
    case (Inl e')
    with b d Suc.prems(1) show ?thesis by (simp add: and_then_def)
  next
    case (Inr t)
    with b d Suc.prems(1) have c: "chain body (take k (drop (i + 1) lst)) t (world (s\<lparr>world := w\<rparr>)) = (Inr arr', w')"
      by (simp add: and_then_def)
    from Suc.IH [OF c] Suc.prems(2,3)
    have "layer_loop body msg lst (i + 1) t (s\<lparr>world := w\<rparr>) =
      (Inl e, s\<lparr>world := w, world := w'', logger := logger s @ [msg (i + 1 + k)]\<rparr>)"
      by simp
    with b Inr i show ?thesis by (simp add: layer_loop_next)
  qed
qed

lemma cache_outermost:
  "s\<lparr>feature_points_arr := c, world := w\<rparr> = s\<lparr>world := w, feature_points_arr := c\<rparr>"
  "s\<lparr>feature_points_arr := c, logger := l\<rparr> = s\<lparr>logger := l, feature_points_arr := c\<rparr>"
  by simp_all

lemma layer_loop_ignores_cache:
  "layer_loop body msg lst i arr (s\<lparr>feature_points_arr := c\<rparr>) =
     (case layer_loop body msg lst i arr s of (r, s') \<Rightarrow> (r, s'\<lparr>feature_points_arr := c\<rparr>))"
proof (induction body msg lst i arr s rule: layer_loop.induct)
  case (1 body msg lst i arr s)
  show ?case
  proof (cases "i < length lst")
    case False
    then show ?thesis by (simp add: layer_loop_done)
  next
    case True
    obtain r w where b: "body (lst ! i) arr (world s) = (r, w)"
      by (cases "body (lst ! i) arr (world s)")
    show ?thesis
    proof (cases r)
      case (Inl e)
      with b True show ?thesis by (simp add: layer_loop_raise)
    next
      case (Inr t)
      with b True "1.IH" [OF True b [symmetric] ] show ?thesis
        by (simp add: layer_loop_next cache_outermost)
    qed
  qed
qed

lemma back_propagation_ignores_cache:
  "back_propagation self delta_arr (s\<lparr>feature_points_arr := c\<rparr>) =
     (case back_propagation self delta_arr s of (r, s') \<Rightarrow> (r, s'\<lparr>feature_points_arr := c\<rparr>))"
  by (simp add: back_propagation_def convolve_delta_def propagate_delta_def
      layer_loop_ignores_cache cache_outermost Let_def split: prod.splits sum.splits)

lemma back_propagation_cache:
  "feature_points_arr (snd (back_propagation self delta_arr s)) = feature_points_arr s"
proof -
  have "feature_points_arr (snd (convolve_delta self delta_arr s)) = feature_points_arr s"
    by (simp add: convolve_delta_def layer_loop_cache)
  moreover have "\<And>arr t. feature_points_arr (snd (propagate_delta self arr t)) = feature_points_arr t"
    by (simp add: propagate_delta_def layer_loop_cache Let_def)
  ultimately show ?thesis
    by (auto simp: back_propagation_def split: prod.splits sum.splits dest: arg_cong [where f = snd])
qed

section \<open>The cache and \<^verbatim>\<open>back_propagation\<close>\<close>

text \<open>
  C9. \<^verbatim>\<open>back_propagation\<close> neither writes nor reads the attribute
  \<^verbatim>\<open>__feature_points_arr\<close>: whatever the delta, the layers and the optimizer do, and
  whether the call returns or raises, \<^verbatim>\<open>extract_feature_points_arr\<close> returns after
  the call the reference it returned before it, and a call started with another cached
  value gives the same result and the same state apart from that value.
\<close>

theorem back_propagation_frame:
  "extract_feature_points_arr (snd (back_propagation self delta_arr s)) =
     extract_feature_points_arr s \<and>
   back_propagation self delta_arr (s\<lparr>feature_points_arr := c\<rparr>) =
     (case back_propagation self delta_arr s of
        (r, s') \<Rightarrow> (r, s'\<lparr>feature_points_arr := c\<rparr>))"
  by (simp only: extract_feature_points_arr_def back_propagation_cache
      back_propagation_ignores_cache)

text \<open>
  C7. On an instance on which \<^verbatim>\<open>forward_propagation\<close> has not run,
  \<^verbatim>\<open>extract_feature_points_arr\<close> returns \<^verbatim>\<open>None\<close> and does not raise: directly
  after construction, and still after any number of calls of \<^verbatim>\<open>back_propagation\<close>.
\<close>

theorem no_forward_no_features:
  "extract_feature_points_arr (init w) = None \<and>
   extract_feature_points_arr
     (foldl (\<lambda>s delta_arr. snd (back_propagation self delta_arr s)) (init w) deltas) = None"
proof -
  have "feature_points_arr (foldl (\<lambda>s delta_arr. snd (back_propagation self delta_arr s)) s deltas)
     = feature_points_arr s" for s
    by (induction deltas arbitrary: s) (simp_all add: back_propagation_cache)
  then show ?thesis
    by (simp add: extract_feature_points_arr_def init_def)
qed

text \<open>
  C6. \<^verbatim>\<open>back_propagation\<close> first passes the delta through \<^verbatim>\<open>convolve\<close> of every
  layer in stack order, each time with \<^verbatim>\<open>no_bias_flag\<close> set; only when that loop has
  returned do the inverse dropout and the loop over the reversed list run, on the array
  and the world the first loop left. An exception in the first loop ends the call with
  the world as that loop left it.
\<close>

theorem back_propagation_order:
  "(fst (back_propagation self delta_arr s), world (snd (back_propagation self delta_arr s))) =
     (if length (shape delta_arr) \<noteq> 4
      then (Inl (BufferNdim 4 (length (shape delta_arr))), world s)
      else
        and_then
          (chain (\<lambda>layer arr w. typed 4 (convolve layer (Some True) arr w))
             (layerable_cnn_list self) delta_arr (world s))
          (\<lambda>arr w.
             and_then
               (hidden_activity (dropout_rate (opt_params self)) (de_dropout (opt_params self)) arr w)
               (chain delta_body (rev (layerable_cnn_list self)))))"
proof -
  have b: "delta_conv_body = (\<lambda>layer arr w. typed 4 (convolve layer (Some True) arr w))"
    by (intro ext) (simp add: delta_conv_body_def)
  have c: "chain (\<lambda>layer arr w. typed 4 (convolve layer (Some True) arr w)) (layerable_cnn_list self) delta_arr (world s)
      = (fst (convolve_delta self delta_arr s), world (snd (convolve_delta self delta_arr s)))"
    using layer_loop_chain [of delta_conv_body delta_conv_msg "layerable_cnn_list self" 0 delta_arr s]
    by (simp add: convolve_delta_def b)
  have p: "chain delta_body (rev (layerable_cnn_list self)) arr (world t)
      = (fst (propagate_delta self arr t), world (snd (propagate_delta self arr t)))" for arr t
    using layer_loop_chain [of delta_body "delta_msg (length (layerable_cnn_list self))"
        "rev (layerable_cnn_list self)" 0 arr t]
    by (simp add: propagate_delta_def Let_def)
  show ?thesis
  proof (cases "length (shape delta_arr) = 4")
    case False
    then show ?thesis by (simp add: back_propagation_def)
  next
    case True
    obtain r s1 where cd: "convolve_delta self delta_arr s = (r, s1)"
      by (cases "convolve_delta self delta_arr s")
    show ?thesis
    proof (cases r)
      case (Inl e)
      with True cd show ?thesis by (simp add: back_propagation_def and_then_def c)
    next
      case (Inr arr)
      obtain r2 w2 where h: "hidden_activity (dropout_rate (opt_params self))
          (de_dropout (opt_params self)) arr (world s1) = (r2, w2)"
        by (cases "hidden_activity (dropout_rate (opt_params self))
          (de_dropout (opt_params self)) arr (world s1)")
      show ?thesis
      proof (cases r2)
        case (Inl e)
        with True cd Inr h show ?thesis by (simp add: back_propagation_def and_then_def c)
      next
        case r2: (Inr arr2)
        with True cd Inr h p [of arr2 "s1\<lparr>world := w2\<rparr>"] show ?thesis
          by (simp add: back_propagation_def and_then_def c)
      qed
    qed
  qed
qed

lemma layer_loop_returns:
  "layer_loop body msg lst i arr s = (Inr out, s') \<Longrightarrow> s' = s\<lparr>world := world s'\<rparr>"
proof -
  assume r: "layer_loop body msg lst i arr s = (Inr out, s')"
  have "logger s' = logger s"
    using r by (rule layer_loop_logger)
  moreover have "feature_points_arr s' = feature_points_arr s"
    using layer_loop_cache [of body msg lst i arr s] r by simp
  ultimately show ?thesis by simp
qed

lemma replicate_numeral:
  "replicate (numeral k) v = v # replicate (pred_numeral k) v"
  by (simp add: numeral_eq_Suc)

lemmas primitives = np_copy_def size_of_def reshape_rows_def reshape_like_def typed_def
  and_then_def Let_def

lemmas class_defs = init_def encode_body_def encode_msg_def decode_body_def decode_msg_def
  hidden_activity_def encoder_def decoder_def keep_feature_points_def forward_propagation_def
  delta_conv_body_def delta_conv_msg_def delta_body_def delta_msg_def convolve_delta_def
  propagate_delta_def back_propagation_def extract_feature_points_arr_def

lemmas example_defs = same_def filled_def zeroing_def raising_def same_function_def
  plain_layer_def ex_layer1_def ex_layer2_def no_dropout_def half_dropout_def ex_encoder_def
  ex_world_def ex_arr_def replicate_numeral

section \<open>Exceptions and the log\<close>

text \<open>
  C8. When the body of the second loop of \<^verbatim>\<open>back_propagation\<close> raises at position
  \<open>i\<close> of the reversed list, the positions before it having returned, the call raises
  that same exception, and the one message it has logged gives the layer as
  \<^verbatim>\<open>len(layerable_cnn_list) - i\<close>: the 1-based place, in stack order, of the layer
  that raised.
\<close>

theorem delta_error_layer_index:
  assumes "length (shape delta_arr) = 4"
    and "convolve_delta self delta_arr s = (Inr arr1, s1)"
    and "hidden_activity (dropout_rate (opt_params self)) (de_dropout (opt_params self))
           arr1 (world s1) = (Inr arr2, w2)"
    and "chain delta_body (take i (rev (layerable_cnn_list self))) arr2 w2 = (Inr arr3, w3)"
    and "i < length (layerable_cnn_list self)"
    and "delta_body (rev (layerable_cnn_list self) ! i) arr3 w3 = (Inl e, w4)"
  shows "back_propagation self delta_arr s =
           (Inl e,
            s\<lparr>world := w4,
              logger := logger s @
                [''Delta computation raised an error in CNN layer '' @
                 str (length (layerable_cnn_list self) - i)]\<rparr>) \<and>
         rev (layerable_cnn_list self) ! i =
           layerable_cnn_list self ! (length (layerable_cnn_list self) - i - 1)"
proof -
  let ?n = "length (layerable_cnn_list self)"
  have s1: "s1 = s\<lparr>world := world s1\<rparr>"
    using assms(2) unfolding convolve_delta_def by (rule layer_loop_returns)
  have "layer_loop delta_body (delta_msg ?n) (rev (layerable_cnn_list self)) 0 arr2
          (s1\<lparr>world := w2\<rparr>) =
        (Inl e, s1\<lparr>world := w2, world := w4,
           logger := logger (s1\<lparr>world := w2\<rparr>) @ [delta_msg ?n (0 + i)]\<rparr>)"
    using assms(4,5,6)
    by (intro layer_loop_raises_at [where arr' = arr3 and w' = w3 and w'' = w4]) simp_all
  then have "propagate_delta self arr2 (s1\<lparr>world := w2\<rparr>) =
      (Inl e, s1\<lparr>world := w4, logger := logger s1 @ [delta_msg ?n i]\<rparr>)"
    by (simp add: propagate_delta_def Let_def)
  then have "back_propagation self delta_arr s =
      (Inl e, s1\<lparr>world := w4, logger := logger s1 @ [delta_msg ?n i]\<rparr>)"
    using assms(1,2,3) by (simp add: back_propagation_def)
  moreover have "s1\<lparr>world := w4, logger := logger s1 @ [delta_msg ?n i]\<rparr> =
      s\<lparr>world := w4, logger := logger s @ [delta_msg ?n i]\<rparr>"
    by (subst s1, subst (2) s1) simp
  ultimately have "back_propagation self delta_arr s =
      (Inl e, s\<lparr>world := w4, logger := logger s @ [delta_msg ?n i]\<rparr>)"
    by simp
  moreover have "rev (layerable_cnn_list self) ! i = layerable_cnn_list self ! (?n - i - 1)"
    using assms(5) by (simp add: rev_nth)
  ultimately show ?thesis
    by (simp add: delta_msg_def)
qed

theorem delta_error_layer_index_witness:
  "back_propagation ex_delta_broken ex_arr (init ex_world) =
     (Inl (Raised ''boom''),
      \<lparr>world = \<lparr>heap = [[1, 2, 3, 4], [5, 5, 5, 5, 5, 5], [0, 0], [1, 1, 1, 1, 1, 1]],
                extern = ()\<rparr>,
       feature_points_arr = None,
       logger = [''Setup Convolutional Auto-Encoder and the parameters.'',
                 ''Delta computation raised an error in CNN layer 1'']\<rparr>)"
  using delta_error_layer_index [where delta_arr = ex_arr and self = ex_delta_broken
      and s = "init ex_world"
      and ?arr1.0 = "\<lparr>shape = [2, 1, 1, 1], buf = 2\<rparr>"
      and ?s1.0 = "\<lparr>world = \<lparr>heap = [[1, 2, 3, 4], [5, 5, 5, 5, 5, 5], [5, 5]], extern = ()\<rparr>,
        feature_points_arr = None,
        logger = [''Setup Convolutional Auto-Encoder and the parameters.'']\<rparr>"
      and ?arr2.0 = "\<lparr>shape = [2, 1, 1, 1], buf = 2\<rparr>"
      and ?w2.0 = "\<lparr>heap = [[1, 2, 3, 4], [5, 5, 5, 5, 5, 5], [0, 0]], extern = ()\<rparr>"
      and i = 1
      and ?arr3.0 = "\<lparr>shape = [2, 3, 1, 1], buf = 3\<rparr>"
      and ?w3.0 = "\<lparr>heap = [[1, 2, 3, 4], [5, 5, 5, 5, 5, 5], [0, 0], [1, 1, 1, 1, 1, 1]],
        extern = ()\<rparr>"
      and e = "Raised ''boom''"
      and ?w4.0 = "\<lparr>heap = [[1, 2, 3, 4], [5, 5, 5, 5, 5, 5], [0, 0], [1, 1, 1, 1, 1, 1]],
        extern = ()\<rparr>"]
  by (simp add: primitives class_defs example_defs ex_delta_broken_def layer_loop.simps
      str.simps)

text \<open>
  C2, as the code has it. For a stack of two layers, when \<^verbatim>\<open>deconvolve\<close> of the second
  layer of the stack raises in the decoder loop, \<^verbatim>\<open>forward_propagation\<close> raises that
  same exception, and the message it has logged is
  \<^verbatim>\<open>Error raised in Deconvolution layer 1\<close>: the decoder numbers the layers as it
  visits them, and the last layer of the stack is the first it visits.
\<close>

theorem deconvolve_error_layer_index:
  assumes "layerable_cnn_list self = [layer1, layer2]"
    and "length (shape img_arr) = 4"
    and "encoder self img_arr s = (Inr enc_arr, s1)"
    and "hidden_activity (dropout_rate (opt_params self)) (dropout (opt_params self)) enc_arr
           (world (keep_feature_points enc_arr s1)) = (Inr arr, w3)"
    and "typed 4 (backward (activation_function (layer_graph layer2)) arr w3) = (Inr arr', w4)"
    and "deconvolve layer2 arr' w4 = (Inl e, w5)"
  shows "forward_propagation self img_arr s =
           (Inl e,
            (keep_feature_points enc_arr s1)
              \<lparr>world := w5,
               logger := logger s @ [''Error raised in Deconvolution layer 1'']\<rparr>)"
proof -
  let ?s2 = "keep_feature_points enc_arr s1"
  have l: "logger ?s2 = logger s"
    using layer_loop_logger [OF assms(3) [unfolded encoder_def]]
    by (simp add: keep_feature_points_def split: prod.splits)
  have b: "decode_body ([layer2, layer1] ! 0) arr (world (?s2\<lparr>world := w3\<rparr>)) = (Inl e, w5)"
    using assms(5,6) by (simp add: decode_body_def and_then_def typed_def)
  have "layer_loop decode_body decode_msg [layer2, layer1] 0 arr (?s2\<lparr>world := w3\<rparr>) =
      (Inl e, ?s2\<lparr>world := w3, world := w5,
         logger := logger (?s2\<lparr>world := w3\<rparr>) @ [decode_msg 0]\<rparr>)"
    using b by (intro layer_loop_raise) simp_all
  then have "decoder self arr (?s2\<lparr>world := w3\<rparr>) =
      (Inl e, ?s2\<lparr>world := w5, logger := logger s @ [decode_msg 0]\<rparr>)"
    using assms(1) l by (simp add: decoder_def)
  moreover have "decode_msg 0 = ''Error raised in Deconvolution layer 1''"
    by (simp add: decode_msg_def str.simps)
  ultimately show ?thesis
    using assms(2,3,4) by (simp add: forward_propagation_def Let_def)
qed

theorem deconvolve_error_layer_index_witness:
  "forward_propagation ex_deconv_broken ex_arr (init ex_world) =
     (Inl (Raised ''boom''),
      \<lparr>world = \<lparr>heap = [[1, 2, 3, 4], [5, 5, 5, 5, 5, 5], [5, 5], [5, 5]], extern = ()\<rparr>,
       feature_points_arr = Some \<lparr>shape = [2, 1, 1, 1], buf = 3\<rparr>,
       logger = [''Setup Convolutional Auto-Encoder and the parameters.'',
                 ''Error raised in Deconvolution layer 1'']\<rparr>)"
  using deconvolve_error_layer_index [where self = ex_deconv_broken and ?layer1.0 = ex_layer1
      and ?layer2.0 = "ex_layer2\<lparr>deconvolve := raising ''boom''\<rparr>" and img_arr = ex_arr
      and s = "init ex_world" and enc_arr = "\<lparr>shape = [2, 1, 1, 1], buf = 2\<rparr>"
      and ?s1.0 = "\<lparr>world = \<lparr>heap = [[1, 2, 3, 4], [5, 5, 5, 5, 5, 5], [5, 5]], extern = ()\<rparr>,
        feature_points_arr = None,
        logger = [''Setup Convolutional Auto-Encoder and the parameters.'']\<rparr>"
      and arr = "\<lparr>shape = [2, 1, 1, 1], buf = 2\<rparr>"
      and ?w3.0 = "\<lparr>heap = [[1, 2, 3, 4], [5, 5, 5, 5, 5, 5], [5, 5], [5, 5]], extern = ()\<rparr>"
      and arr' = "\<lparr>shape = [2, 1, 1, 1], buf = 2\<rparr>"
      and ?w4.0 = "\<lparr>heap = [[1, 2, 3, 4], [5, 5, 5, 5, 5, 5], [5, 5], [5, 5]], extern = ()\<rparr>"
      and e = "Raised ''boom''"
      and ?w5.0 = "\<lparr>heap = [[1, 2, 3, 4], [5, 5, 5, 5, 5, 5], [5, 5], [5, 5]], extern = ()\<rparr>"]
  by (simp add: primitives class_defs example_defs ex_deconv_broken_def layer_loop.simps
      str.simps)

text \<open>
  C2 as the specification states it fails. In this run the stack has two layers and
  \<^verbatim>\<open>deconvolve\<close> of the second raises \<^verbatim>\<open>boom\<close>; the call raises \<^verbatim>\<open>boom\<close>, but no
  message of the log refers to \<^verbatim>\<open>layer 2\<close>.
\<close>

theorem deconvolve_error_layer_index_counterexample:
  "length (layerable_cnn_list ex_deconv_broken) = 2 \<and>
   deconvolve (layerable_cnn_list ex_deconv_broken ! 1) ex_arr ex_world =
     (Inl (Raised ''boom''), ex_world) \<and>
   fst (forward_propagation ex_deconv_broken ex_arr (init ex_world)) = Inl (Raised ''boom'') \<and>
   logger (snd (forward_propagation ex_deconv_broken ex_arr (init ex_world))) =
     [''Setup Convolutional Auto-Encoder and the parameters.'',
      ''Error raised in Deconvolution layer 1''] \<and>
   \<not> list_ex (\<lambda>m. mentions m ''layer 2'')
       (logger (snd (forward_propagation ex_deconv_broken ex_arr (init ex_world))))"
  by (simp add: primitives class_defs example_defs ex_deconv_broken_def layer_loop.simps
      str.simps)

section \<open>The step of the decoder\<close>

text \<open>
  C1, as the code has it. The decoder loop takes the layers in reverse stack order, and
  its step on each is: the backward transform of the layer's \<^emph>\<open>activation\<close> function,
  then the layer's \<^verbatim>\<open>deconvolve\<close>, then the activate transform of the layer's
  deactivation function, each result being assigned to the four-dimensional
  \<^verbatim>\<open>img_arr\<close>. The array and the world the loop ends with are those of this
  composition, and this is what \<^verbatim>\<open>forward_propagation\<close> returns once the encoder and
  the dropout stage have returned.
\<close>

theorem decoder_step_composition:
  "(fst (decoder self arr s), world (snd (decoder self arr s))) =
     chain
       (\<lambda>layer.
          composed3 (backward (activation_function (layer_graph layer))) (deconvolve layer)
            (activate (deactivation_function (layer_graph layer))))
       (rev (layerable_cnn_list self)) arr (world s) \<and>
   (length (shape img_arr) = 4 \<and> encoder self img_arr s = (Inr enc_arr, s1) \<and>
    hidden_activity (dropout_rate (opt_params self)) (dropout (opt_params self)) enc_arr
      (world (keep_feature_points enc_arr s1)) = (Inr arr, w3) \<longrightarrow>
    fst (forward_propagation self img_arr s) =
      fst (chain
        (\<lambda>layer.
           composed3 (backward (activation_function (layer_graph layer))) (deconvolve layer)
             (activate (deactivation_function (layer_graph layer))))
        (rev (layerable_cnn_list self)) arr w3))"
proof -
  have b: "(\<lambda>layer.
      composed3 (backward (activation_function (layer_graph layer))) (deconvolve layer)
        (activate (deactivation_function (layer_graph layer)))) = decode_body"
    by (intro ext) (simp add: composed3_def decode_body_def)
  have d: "(fst (decoder self a t), world (snd (decoder self a t))) =
      chain decode_body (rev (layerable_cnn_list self)) a (world t)" for a t
    using layer_loop_chain [of decode_body decode_msg "rev (layerable_cnn_list self)" 0 a t]
    by (simp add: decoder_def)
  have "fst (forward_propagation self img_arr s) =
      fst (chain decode_body (rev (layerable_cnn_list self)) arr w3)"
    if "length (shape img_arr) = 4" "encoder self img_arr s = (Inr enc_arr, s1)"
      "hidden_activity (dropout_rate (opt_params self)) (dropout (opt_params self)) enc_arr
        (world (keep_feature_points enc_arr s1)) = (Inr arr, w3)"
    using that d [of arr "(keep_feature_points enc_arr s1)\<lparr>world := w3\<rparr>", symmetric]
    by (simp add: forward_propagation_def Let_def)
  with d [of arr s] show ?thesis
    unfolding b by blast
qed

theorem decoder_step_composition_witness:
  "fst (forward_propagation ex_kinked ex_arr (init ex_world)) =
     fst (chain
        (\<lambda>layer.
           composed3 (backward (activation_function (layer_graph layer))) (deconvolve layer)
             (activate (deactivation_function (layer_graph layer))))
        (rev (layerable_cnn_list ex_kinked)) ex_arr
        \<lparr>heap = [[1, 2, 3, 4], [1, 2, 3, 4]], extern = ()\<rparr>)"
  using decoder_step_composition [where self = ex_kinked and img_arr = ex_arr
      and s = "init ex_world" and enc_arr = ex_arr and ?s1.0 = "init ex_world" and arr = ex_arr
      and ?w3.0 = "\<lparr>heap = [[1, 2, 3, 4], [1, 2, 3, 4]], extern = ()\<rparr>"]
  by (simp add: primitives class_defs example_defs ex_kinked_def ex_kinked_layer_def
      layer_loop.simps composed3_def)

text \<open>
  C1 as the specification states it, with the backward transform of the
  \<^emph>\<open>deactivation\<close> function as the first part of the step, fails: on this one-layer stack
  the code returns the array that the backward transform of the activation function
  made, where the step as stated would return the array it was given.
\<close>

theorem decoder_step_counterexample:
  "fst (forward_propagation ex_kinked ex_arr (init ex_world)) =
     Inr \<lparr>shape = [2, 1, 1, 1], buf = 2\<rparr> \<and>
   fst (decoder ex_kinked ex_arr (keep_feature_points ex_arr (init ex_world))) =
     Inr \<lparr>shape = [2, 1, 1, 1], buf = 2\<rparr> \<and>
   fst (chain claimed_decode_step (rev (layerable_cnn_list ex_kinked)) ex_arr
          (world (keep_feature_points ex_arr (init ex_world)))) =
     Inr \<lparr>shape = [2, 1, 1, 2], buf = 0\<rparr>"
  by (simp add: primitives class_defs example_defs ex_kinked_def ex_kinked_layer_def
      layer_loop.simps composed3_def claimed_decode_step_def)

section \<open>Without dropout\<close>

lemma forward_propagation_chain:
  assumes "dropout_rate (opt_params self) \<le> 0" and "length (shape img_arr) = 4"
  shows "(fst (forward_propagation self img_arr s),
          world (snd (forward_propagation self img_arr s))) =
         encode_then_decode (layerable_cnn_list self) img_arr (world s)"
proof -
  have e: "chain encode_body (layerable_cnn_list self) img_arr (world s) =
      (fst (encoder self img_arr s), world (snd (encoder self img_arr s)))"
    using layer_loop_chain [of encode_body encode_msg "layerable_cnn_list self" 0 img_arr s]
    by (simp add: encoder_def)
  have d: "chain decode_body (rev (layerable_cnn_list self)) a (world t) =
      (fst (decoder self a t), world (snd (decoder self a t)))" for a t
    using layer_loop_chain [of decode_body decode_msg "rev (layerable_cnn_list self)" 0 a t]
    by (simp add: decoder_def)
  have k: "world (keep_feature_points a t) = snd (np_copy a (world t))" for a t
    by (simp add: keep_feature_points_def split: prod.splits)
  obtain r s1 where en: "encoder self img_arr s = (r, s1)"
    by (cases "encoder self img_arr s")
  show ?thesis
  proof (cases r)
    case (Inl ex)
    with en assms show ?thesis
      by (simp add: forward_propagation_def encode_then_decode_def e and_then_def)
  next
    case (Inr a)
    have "keep_feature_points a s1\<lparr>world := world (keep_feature_points a s1)\<rparr> =
        keep_feature_points a s1"
      by simp
    with Inr en assms d [of a "keep_feature_points a s1"] show ?thesis
      by (simp add: forward_propagation_def encode_then_decode_def e and_then_def
          hidden_activity_def Let_def k)
  qed
qed

text \<open>
  C4. With a dropout rate of zero (or below) the stage between the two loops does
  nothing: the array and the world pass through it as they are, and \<^verbatim>\<open>dropout\<close> is not
  called, so that the call is the same whatever \<^verbatim>\<open>dropout\<close> would do. The array
  returned and the world left are those of encoding and then decoding the input, and
  two calls on the same input that start in the same world return the same.
\<close>

theorem no_dropout_forward:
  assumes "dropout_rate (opt_params self) \<le> 0"
  shows "hidden_activity (dropout_rate (opt_params self)) f arr w = (Inr arr, w) \<and>
    forward_propagation (self\<lparr>opt_params := (opt_params self)\<lparr>dropout := f\<rparr>\<rparr>) img_arr s =
      forward_propagation self img_arr s \<and>
    (length (shape img_arr) = 4 \<longrightarrow>
      (fst (forward_propagation self img_arr s),
       world (snd (forward_propagation self img_arr s))) =
      encode_then_decode (layerable_cnn_list self) img_arr (world s)) \<and>
    (world t = world s \<longrightarrow>
      fst (forward_propagation self img_arr t) = fst (forward_propagation self img_arr s))"
proof -
  have a: "hidden_activity (dropout_rate (opt_params self)) f arr w = (Inr arr, w)"
    using assms by (simp add: hidden_activity_def)
  have b: "forward_propagation (self\<lparr>opt_params := (opt_params self)\<lparr>dropout := f\<rparr>\<rparr>) img_arr s =
      forward_propagation self img_arr s"
  proof -
    let ?self = "self\<lparr>opt_params := (opt_params self)\<lparr>dropout := f\<rparr>\<rparr>"
    have h: "hidden_activity (dropout_rate (opt_params self)) g a v = (Inr a, v)" for g a v
      using assms by (simp add: hidden_activity_def)
    have "encoder ?self = encoder self" and "decoder ?self = decoder self"
      by (intro ext, simp add: encoder_def, intro ext, simp add: decoder_def)
    then show ?thesis
      by (simp add: forward_propagation_def h Let_def split: prod.splits sum.splits)
  qed
  have d: "fst (forward_propagation self img_arr t) = fst (forward_propagation self img_arr s)"
    if "world t = world s"
  proof (cases "length (shape img_arr) = 4")
    case True
    from forward_propagation_chain [OF assms True, of t]
      forward_propagation_chain [OF assms True, of s] that
    have "(fst (forward_propagation self img_arr t),
           world (snd (forward_propagation self img_arr t))) =
          (fst (forward_propagation self img_arr s),
           world (snd (forward_propagation self img_arr s)))"
      by (simp only:)
    then show ?thesis by (rule Pair_inject)
  next
    case False
    then show ?thesis by (simp add: forward_propagation_def)
  qed
  from a b d forward_propagation_chain [OF assms] show ?thesis
    by blast
qed

theorem no_dropout_forward_witness:
  "forward_propagation (ex_plain\<lparr>opt_params := (opt_params ex_plain)\<lparr>dropout := zeroing\<rparr>\<rparr>)
     ex_arr (init ex_world) =
   forward_propagation ex_plain ex_arr (init ex_world) \<and>
   (fst (forward_propagation ex_plain ex_arr (init ex_world)),
    world (snd (forward_propagation ex_plain ex_arr (init ex_world)))) =
   encode_then_decode [ex_layer1, ex_layer2] ex_arr ex_world \<and>
   fst (forward_propagation ex_plain ex_arr
          ((init ex_world)\<lparr>feature_points_arr := Some ex_arr, logger := []\<rparr>)) =
   Inr \<lparr>shape = [2, 1, 1, 2], buf = 5\<rparr>"
  using no_dropout_forward [where self = ex_plain and f = zeroing and img_arr = ex_arr
      and s = "init ex_world"
      and t = "(init ex_world)\<lparr>feature_points_arr := Some ex_arr, logger := []\<rparr>"]
  by (simp add: primitives class_defs example_defs ex_plain_def layer_loop.simps)

section \<open>The copy kept for \<^verbatim>\<open>extract_feature_points_arr\<close>\<close>

lemma keepsD:
  fixes arr arr' :: ndarray
  assumes "keeps p f" and "p < length (heap w)" and "buf arr \<noteq> p" and "f arr w = (r, w')"
  shows "p < length (heap w')" and "heap w' ! p = heap w ! p"
    and "r = Inr arr' \<Longrightarrow> buf arr' \<noteq> p"
proof -
  have "p < length (heap w) \<and> buf arr \<noteq> p" using assms(2,3) by simp
  from assms(1) [unfolded keeps_def, rule_format, OF this] assms(4) have *: "p < length (heap w') \<and> heap w' ! p = heap w ! p \<and>
        (case r of Inl e \<Rightarrow> True | Inr arr' \<Rightarrow> buf arr' \<noteq> p)"
    by simp
  then show "p < length (heap w')" and "heap w' ! p = heap w ! p" by simp_all
  from * show "r = Inr arr' \<Longrightarrow> buf arr' \<noteq> p" by simp
qed

lemma keepsI:
  fixes f :: "('a, 'b, 'c) py_method"
  assumes "\<And>(arr :: ndarray) w r w'. p < length (heap w) \<Longrightarrow> buf arr \<noteq> p \<Longrightarrow> f arr w = (r, w') \<Longrightarrow>
    p < length (heap w') \<and> heap w' ! p = heap w ! p \<and> (\<forall>arr'. r = Inr arr' \<longrightarrow> buf arr' \<noteq> p)"
  shows "keeps p f"
  unfolding keeps_def
proof (intro allI impI)
  fix arr :: ndarray and w :: "('a, 'b) world"
  assume a: "p < length (heap w) \<and> buf arr \<noteq> p"
  obtain r w' where f: "f arr w = (r, w')" by (cases "f arr w")
  with a assms [of w arr r w'] show "case f arr w of
      (r, w') \<Rightarrow> p < length (heap w') \<and> heap w' ! p = heap w ! p \<and>
        (case r of Inl e \<Rightarrow> True | Inr arr' \<Rightarrow> buf arr' \<noteq> p)"
    by (auto split: sum.splits)
qed

lemma keeps_typed: "keeps p f \<Longrightarrow> keeps p (\<lambda>arr w. typed n (f arr w))"
proof (rule keepsI)
  fix arr :: ndarray and w r w'
  assume k: "keeps p f" and p: "p < length (heap w)" "buf arr \<noteq> p"
    and t: "typed n (f arr w) = (r, w')"
  obtain r0 w0 where f: "f arr w = (r0, w0)" by (cases "f arr w")
  from t f have w: "w' = w0" and r: "\<And>a. r = Inr a \<Longrightarrow> r0 = Inr a"
    by (auto simp: typed_def split: sum.splits if_splits)
  from keepsD [OF k p f] w r
  show "p < length (heap w') \<and> heap w' ! p = heap w ! p \<and> (\<forall>arr'. r = Inr arr' \<longrightarrow> buf arr' \<noteq> p)"
    by blast
qed

lemma keeps_and_then:
  assumes "keeps p f" and "keeps p g"
  shows "keeps p (\<lambda>arr w. and_then (f arr w) g)"
proof (rule keepsI)
  fix arr :: ndarray and w r w'
  assume p: "p < length (heap w)" "buf arr \<noteq> p" and t: "and_then (f arr w) g = (r, w')"
  obtain r0 w0 where f: "f arr w = (r0, w0)" by (cases "f arr w")
  note k0 = keepsD [OF assms(1) p f]
  show "p < length (heap w') \<and> heap w' ! p = heap w ! p \<and> (\<forall>arr'. r = Inr arr' \<longrightarrow> buf arr' \<noteq> p)"
  proof (cases r0)
    case (Inl e)
    with t f k0 show ?thesis by (simp add: and_then_def)
  next
    case (Inr a)
    with t f have g: "g a w0 = (r, w')" by (simp add: and_then_def)
    from keepsD [OF assms(2) k0(1) k0(3) [OF Inr] g] k0(2) show ?thesis by simp
  qed
qed

lemma keeps_chain:
  "\<forall>layer\<in>set lst. keeps p (body layer) \<Longrightarrow> keeps p (chain body lst)"
proof (induction lst)
  case Nil
  show ?case by (rule keepsI) auto
next
  case (Cons layer lst)
  then have "keeps p (\<lambda>arr w. and_then (body layer arr w) (chain body lst))"
    by (intro keeps_and_then) simp_all
  moreover have "chain body (layer # lst) = (\<lambda>arr w. and_then (body layer arr w) (chain body lst))"
    by (intro ext) simp
  ultimately show ?case by simp
qed

lemma keeps_decode_body: "layer_keeps p layer \<Longrightarrow> keeps p (decode_body layer)"
proof -
  assume l: "layer_keeps p layer"
  have "keeps p (\<lambda>arr w. and_then
      (and_then (typed 4 (backward (activation_function (layer_graph layer)) arr w))
         (\<lambda>arr w. typed 4 (deconvolve layer arr w)))
      (\<lambda>arr w. typed 4 (activate (deactivation_function (layer_graph layer)) arr w)))"
    using l by (intro keeps_and_then keeps_typed) (simp_all add: layer_keeps_def function_keeps_def)
  moreover have "decode_body layer = (\<lambda>arr w. and_then
      (and_then (typed 4 (backward (activation_function (layer_graph layer)) arr w))
         (\<lambda>arr w. typed 4 (deconvolve layer arr w)))
      (\<lambda>arr w. typed 4 (activate (deactivation_function (layer_graph layer)) arr w)))"
    by (intro ext) (simp add: decode_body_def)
  ultimately show ?thesis by simp
qed

lemma reshape_rows_buf: "reshape_rows arr = Inr h \<Longrightarrow> buf h = buf arr"
  by (auto simp: reshape_rows_def Let_def split: if_splits)

lemma reshape_like_buf: "reshape_like h arr = Inr a \<Longrightarrow> buf a = buf h"
  by (auto simp: reshape_like_def Let_def split: if_splits)

lemma keeps_hidden_activity:
  assumes "keeps p f"
  shows "keeps p (hidden_activity rate f)"
proof (rule keepsI)
  fix arr :: ndarray and w r w'
  assume p: "p < length (heap w)" "buf arr \<noteq> p" and t: "hidden_activity rate f arr w = (r, w')"
  show "p < length (heap w') \<and> heap w' ! p = heap w ! p \<and> (\<forall>arr'. r = Inr arr' \<longrightarrow> buf arr' \<noteq> p)"
  proof (cases "rate > 0")
    case False
    with t p show ?thesis by (auto simp: hidden_activity_def)
  next
    case True
    show ?thesis
    proof (cases "reshape_rows arr :: 'c exn + ndarray")
      case (Inl e)
      with True t p show ?thesis by (auto simp: hidden_activity_def)
    next
      case (Inr h)
      then have bh: "buf h \<noteq> p" using p(2) by (simp add: reshape_rows_buf)
      obtain r0 w0 where f: "typed 2 (f h w) = (r0, w0)" by (cases "typed 2 (f h w)")
      note k0 = keepsD [OF keeps_typed [OF assms, of 2] p(1) bh f]
      show ?thesis
      proof (cases r0)
        case (Inl e)
        with True t Inr f k0 show ?thesis by (auto simp: hidden_activity_def)
      next
        case r0: (Inr h')
        show ?thesis
        proof (cases "reshape_like h' arr :: 'c exn + ndarray")
          case (Inl e)
          with True t Inr f r0 k0 show ?thesis by (auto simp: hidden_activity_def)
        next
          case a: (Inr a)
          with True t Inr f r0 k0 reshape_like_buf [OF a] show ?thesis
            by (auto simp: hidden_activity_def)
        qed
      qed
    qed
  qed
qed

lemma forward_propagation_tail:
  assumes "length (shape img_arr) = 4" and "encoder self img_arr s = (Inr enc_arr, s1)"
  shows "(fst (forward_propagation self img_arr s),
          world (snd (forward_propagation self img_arr s))) =
         and_then
           (hidden_activity (dropout_rate (opt_params self)) (dropout (opt_params self))
              enc_arr (snd (np_copy enc_arr (world s1))))
           (chain decode_body (rev (layerable_cnn_list self)))"
    and "feature_points_arr (snd (forward_propagation self img_arr s)) =
         Some (enc_arr\<lparr>buf := length (heap (world s1))\<rparr>)"
proof -
  let ?s2 = "keep_feature_points enc_arr s1"
  have d: "chain decode_body (rev (layerable_cnn_list self)) a (world t) =
      (fst (decoder self a t), world (snd (decoder self a t)))" for a t
    using layer_loop_chain [of decode_body decode_msg "rev (layerable_cnn_list self)" 0 a t]
    by (simp add: decoder_def)
  have c: "feature_points_arr (snd (decoder self a t)) = feature_points_arr t" for a t
    by (simp add: decoder_def layer_loop_cache)
  have k: "world ?s2 = snd (np_copy enc_arr (world s1))"
    and f: "feature_points_arr ?s2 = Some (enc_arr\<lparr>buf := length (heap (world s1))\<rparr>)"
    by (simp_all add: keep_feature_points_def np_copy_def)
  obtain r w3 where h: "hidden_activity (dropout_rate (opt_params self))
      (dropout (opt_params self)) enc_arr (world ?s2) = (r, w3)"
    by (cases "hidden_activity (dropout_rate (opt_params self))
      (dropout (opt_params self)) enc_arr (world ?s2)")
  show "(fst (forward_propagation self img_arr s),
          world (snd (forward_propagation self img_arr s))) =
         and_then
           (hidden_activity (dropout_rate (opt_params self)) (dropout (opt_params self))
              enc_arr (snd (np_copy enc_arr (world s1))))
           (chain decode_body (rev (layerable_cnn_list self)))"
  proof (cases r)
    case (Inl e)
    with assms h show ?thesis
      by (simp add: forward_propagation_def Let_def and_then_def k [symmetric])
  next
    case (Inr a)
    with assms h d [of a "?s2\<lparr>world := w3\<rparr>"] show ?thesis
      by (simp add: forward_propagation_def Let_def and_then_def k [symmetric])
  qed
  show "feature_points_arr (snd (forward_propagation self img_arr s)) =
         Some (enc_arr\<lparr>buf := length (heap (world s1))\<rparr>)"
  proof (cases r)
    case (Inl e)
    with assms h f show ?thesis
      by (simp add: forward_propagation_def Let_def)
  next
    case (Inr a)
    with assms h f c [of a "?s2\<lparr>world := w3\<rparr>"] show ?thesis
      by (simp add: forward_propagation_def Let_def)
  qed
qed

lemma forward_after_encoder:
  assumes "length (shape img_arr) = 4" and "encoder self img_arr s = (Inr enc_arr, s1)"
    and "\<forall>layer\<in>set (layerable_cnn_list self). layer_keeps (length (heap (world s1))) layer"
    and "keeps (length (heap (world s1))) (dropout (opt_params self))"
    and "buf enc_arr < length (heap (world s1))"
    and "forward_propagation self img_arr s = (r, s')"
  shows "length (heap (world s1)) < length (heap (world s'))"
    and "heap (world s') ! length (heap (world s1)) = heap (world s1) ! buf enc_arr"
    and "r = Inr out \<Longrightarrow> buf out \<noteq> length (heap (world s1))"
proof -
  let ?p = "length (heap (world s1))"
  let ?w2 = "snd (np_copy enc_arr (world s1))"
  let ?g = "\<lambda>arr w. and_then
      (hidden_activity (dropout_rate (opt_params self)) (dropout (opt_params self)) arr w)
      (chain decode_body (rev (layerable_cnn_list self)))"
  have "keeps ?p (chain decode_body (rev (layerable_cnn_list self)))"
    using assms(3) by (intro keeps_chain) (simp add: keeps_decode_body)
  then have g: "keeps ?p ?g"
    using assms(4) by (intro keeps_and_then keeps_hidden_activity)
  have w2: "?p < length (heap ?w2)" "heap ?w2 ! ?p = heap (world s1) ! buf enc_arr"
    by (simp_all add: np_copy_def)
  have b: "buf enc_arr \<noteq> ?p" using assms(5) by simp
  have run: "?g enc_arr ?w2 = (r, world s')"
    using forward_propagation_tail(1) [OF assms(1,2)] assms(6) by simp
  from keepsD [OF g w2(1) b run] w2(2)
  show "?p < length (heap (world s'))"
    and "heap (world s') ! ?p = heap (world s1) ! buf enc_arr"
    and "r = Inr out \<Longrightarrow> buf out \<noteq> ?p"
    by simp_all
qed

lemma keeps_same: "keeps p same"
  by (rule keepsI) (auto simp: same_def)

lemma keeps_raising: "keeps p (raising e)"
  by (rule keepsI) (auto simp: raising_def)

lemma keeps_filled: "keeps p (filled sh v)"
  by (rule keepsI) (auto simp: filled_def nth_append)

lemma keeps_zeroing: "keeps p zeroing"
  by (rule keepsI) (auto simp: zeroing_def)

lemmas keeps_examples = keeps_same keeps_raising keeps_filled keeps_zeroing layer_keeps_def
  function_keeps_def

text \<open>
  C3. After a call of \<^verbatim>\<open>forward_propagation\<close> that returned,
  \<^verbatim>\<open>extract_feature_points_arr\<close> returns an array of the shape of the array the
  encoder loop ended with, in a buffer of its own that holds the elements that array
  had when the loop ended, before dropout and decoding. The array the call returned
  lives in another buffer, so that overwriting it leaves the cached elements as they
  are. The collaborators are taken to have no reference to the new buffer (\<open>keeps\<close>),
  and the array of the encoder to be allocated.
\<close>

theorem feature_points_defensive_copy:
  assumes "forward_propagation self img_arr s = (Inr out, s')"
    and "encoder self img_arr s = (Inr enc_arr, s1)"
    and "\<forall>layer\<in>set (layerable_cnn_list self). layer_keeps (length (heap (world s1))) layer"
    and "keeps (length (heap (world s1))) (dropout (opt_params self))"
    and "buf enc_arr < length (heap (world s1))"
  shows "\<exists>c. extract_feature_points_arr s' = Some c \<and>
           shape c = shape enc_arr \<and>
           buf c \<noteq> buf enc_arr \<and>
           heap (world s') ! buf c = heap (world s1) ! buf enc_arr \<and>
           buf c \<noteq> buf out \<and>
           (\<forall>d. heap (write_array out d (world s')) ! buf c = heap (world s') ! buf c)"
proof -
  let ?p = "length (heap (world s1))"
  have n: "length (shape img_arr) = 4"
    using assms(1) by (auto simp: forward_propagation_def split: if_splits)
  have c: "extract_feature_points_arr s' = Some (enc_arr\<lparr>buf := ?p\<rparr>)"
    using forward_propagation_tail(2) [OF n assms(2)] assms(1)
    by (simp add: extract_feature_points_arr_def)
  note f = forward_after_encoder [OF n assms(2,3,4,5,1)]
  have o: "?p \<noteq> buf out" using f(3) [of out] by simp
  have "heap (write_array out d (world s')) ! ?p = heap (world s') ! ?p" for d
    using o by (simp add: write_array_def)
  with c f(2) o assms(5) show ?thesis by simp
qed

theorem feature_points_defensive_copy_witness:
  "\<exists>c. extract_feature_points_arr (snd (forward_propagation ex_encoder ex_arr (init ex_world)))
         = Some c \<and>
       shape c = [2, 1, 1, 1] \<and> buf c \<noteq> 2 \<and>
       heap (world (snd (forward_propagation ex_encoder ex_arr (init ex_world)))) ! buf c =
         [5, 5] \<and>
       heap (world (snd (forward_propagation ex_encoder ex_arr (init ex_world)))) ! 2 =
         [0, 0] \<and>
       buf c \<noteq> 5 \<and>
       (\<forall>d. heap (write_array \<lparr>shape = [2, 1, 1, 2], buf = 5\<rparr> d
                (world (snd (forward_propagation ex_encoder ex_arr (init ex_world))))) ! buf c =
          heap (world (snd (forward_propagation ex_encoder ex_arr (init ex_world)))) ! buf c)"
proof -
  have run: "forward_propagation ex_encoder ex_arr (init ex_world) =
      (Inr \<lparr>shape = [2, 1, 1, 2], buf = 5\<rparr>,
       snd (forward_propagation ex_encoder ex_arr (init ex_world)))"
    by (simp add: primitives class_defs example_defs layer_loop.simps)
  have enc: "encoder ex_encoder ex_arr (init ex_world) =
      (Inr \<lparr>shape = [2, 1, 1, 1], buf = 2\<rparr>,
       \<lparr>world = \<lparr>heap = [[1, 2, 3, 4], [5, 5, 5, 5, 5, 5], [5, 5]], extern = ()\<rparr>,
        feature_points_arr = None,
        logger = [''Setup Convolutional Auto-Encoder and the parameters.'']\<rparr>)"
    by (simp add: primitives class_defs example_defs layer_loop.simps)
  have "heap (world (snd (forward_propagation ex_encoder ex_arr (init ex_world)))) ! 2 = [0, 0]"
    by (simp add: primitives class_defs example_defs layer_loop.simps)
  with feature_points_defensive_copy [OF run enc]
  show ?thesis
    by (simp add: keeps_examples example_defs)
qed

text \<open>
  C10. A call of \<^verbatim>\<open>forward_propagation\<close> that raises does not always leave the cache
  as it found it. When the encoder loop raises, the attribute is untouched. When the
  encoder loop has returned and the dropout stage or the decoder loop raises, the
  attribute already refers to the copy of this call's encoder output: an array of its
  shape in a buffer allocated by this call, hence not the array cached before, holding
  the elements of the encoder output (the collaborators having no reference to it).
\<close>

theorem forward_not_atomic:
  assumes "length (shape img_arr) = 4"
  shows "(encoder self img_arr s = (Inl e, s1) \<longrightarrow>
            forward_propagation self img_arr s = (Inl e, s1) \<and>
            extract_feature_points_arr s1 = extract_feature_points_arr s) \<and>
         (encoder self img_arr s = (Inr enc_arr, s1) \<and>
          forward_propagation self img_arr s = (Inl e, s') \<longrightarrow>
            extract_feature_points_arr s' =
              Some (enc_arr\<lparr>buf := length (heap (world s1))\<rparr>) \<and>
            ((\<forall>c. extract_feature_points_arr s = Some c \<longrightarrow> buf c < length (heap (world s1))) \<longrightarrow>
               extract_feature_points_arr s' \<noteq> extract_feature_points_arr s) \<and>
            ((\<forall>layer\<in>set (layerable_cnn_list self).
                 layer_keeps (length (heap (world s1))) layer) \<and>
             keeps (length (heap (world s1))) (dropout (opt_params self)) \<and>
             buf enc_arr < length (heap (world s1)) \<longrightarrow>
               heap (world s') ! length (heap (world s1)) = heap (world s1) ! buf enc_arr))"
proof (intro conjI impI)
  assume en: "encoder self img_arr s = (Inl e, s1)"
  with assms show "forward_propagation self img_arr s = (Inl e, s1)"
    by (simp add: forward_propagation_def)
  from en layer_loop_cache [of encode_body encode_msg "layerable_cnn_list self" 0 img_arr s]
  show "extract_feature_points_arr s1 = extract_feature_points_arr s"
    by (simp add: encoder_def extract_feature_points_arr_def)
next
  assume a: "encoder self img_arr s = (Inr enc_arr, s1) \<and>
      forward_propagation self img_arr s = (Inl e, s')"
  then show c: "extract_feature_points_arr s' = Some (enc_arr\<lparr>buf := length (heap (world s1))\<rparr>)"
    using forward_propagation_tail(2) [OF assms, of self s enc_arr s1]
    by (simp add: extract_feature_points_arr_def)
  {
    assume h: "\<forall>c. extract_feature_points_arr s = Some c \<longrightarrow> buf c < length (heap (world s1))"
    show "extract_feature_points_arr s' \<noteq> extract_feature_points_arr s"
    proof
      assume "extract_feature_points_arr s' = extract_feature_points_arr s"
      with c have "extract_feature_points_arr s =
          Some (enc_arr\<lparr>buf := length (heap (world s1))\<rparr>)"
        by simp
      with h have "buf (enc_arr\<lparr>buf := length (heap (world s1))\<rparr>) < length (heap (world s1))"
        by blast
      then show False by simp
    qed
  }
  {
    assume "(\<forall>layer\<in>set (layerable_cnn_list self).
                 layer_keeps (length (heap (world s1))) layer) \<and>
             keeps (length (heap (world s1))) (dropout (opt_params self)) \<and>
             buf enc_arr < length (heap (world s1))"
    with a forward_after_encoder(2) [OF assms, of self s enc_arr s1 "Inl e" s']
    show "heap (world s') ! length (heap (world s1)) = heap (world s1) ! buf enc_arr"
      by blast
  }
qed

theorem forward_not_atomic_witness:
  "extract_feature_points_arr ex_state = Some \<lparr>shape = [2, 1, 1, 1], buf = 3\<rparr> \<and>
   fst (forward_propagation ex_conv_broken ex_arr ex_state) = Inl (Raised ''boom'') \<and>
   extract_feature_points_arr (snd (forward_propagation ex_conv_broken ex_arr ex_state)) =
     Some \<lparr>shape = [2, 1, 1, 1], buf = 3\<rparr> \<and>
   fst (forward_propagation ex_deconv_broken ex_arr ex_state) = Inl (Raised ''boom'') \<and>
   extract_feature_points_arr (snd (forward_propagation ex_deconv_broken ex_arr ex_state)) =
     Some \<lparr>shape = [2, 1, 1, 1], buf = 8\<rparr> \<and>
   heap (world (snd (forward_propagation ex_deconv_broken ex_arr ex_state))) ! 8 = [5, 5]"
proof -
  have st: "ex_state =
      \<lparr>world = \<lparr>heap = [[1, 2, 3, 4], [5, 5, 5, 5, 5, 5], [5, 5], [5, 5],
                         [3, 3, 3, 3, 3, 3], [3, 3, 3, 3]], extern = ()\<rparr>,
       feature_points_arr = Some \<lparr>shape = [2, 1, 1, 1], buf = 3\<rparr>,
       logger = [''Setup Convolutional Auto-Encoder and the parameters.'']\<rparr>"
    by (simp add: ex_state_def ex_plain_def primitives class_defs example_defs layer_loop.simps)
  have e1: "encoder ex_conv_broken ex_arr ex_state =
      (Inl (Raised ''boom''), snd (forward_propagation ex_conv_broken ex_arr ex_state))"
    unfolding st
    by (simp add: ex_conv_broken_def primitives class_defs example_defs layer_loop.simps
        str.simps)
  have e2: "encoder ex_deconv_broken ex_arr ex_state =
      (Inr \<lparr>shape = [2, 1, 1, 1], buf = 7\<rparr>,
       \<lparr>world = \<lparr>heap = [[1, 2, 3, 4], [5, 5, 5, 5, 5, 5], [5, 5], [5, 5],
                          [3, 3, 3, 3, 3, 3], [3, 3, 3, 3], [5, 5, 5, 5, 5, 5], [5, 5]],
                  extern = ()\<rparr>,
        feature_points_arr = Some \<lparr>shape = [2, 1, 1, 1], buf = 3\<rparr>,
        logger = [''Setup Convolutional Auto-Encoder and the parameters.'']\<rparr>)"
    unfolding st
    by (simp add: ex_deconv_broken_def primitives class_defs example_defs layer_loop.simps)
  have f2: "forward_propagation ex_deconv_broken ex_arr ex_state =
      (Inl (Raised ''boom''), snd (forward_propagation ex_deconv_broken ex_arr ex_state))"
    unfolding st
    by (simp add: ex_deconv_broken_def primitives class_defs example_defs layer_loop.simps
        str.simps)
  have n: "length (shape ex_arr) = 4"
    by (simp add: ex_arr_def)
  from forward_not_atomic [OF n, of ex_conv_broken ex_state "Raised ''boom''"
      "snd (forward_propagation ex_conv_broken ex_arr ex_state)"] e1
  have a: "forward_propagation ex_conv_broken ex_arr ex_state =
      (Inl (Raised ''boom''), snd (forward_propagation ex_conv_broken ex_arr ex_state))"
    and b: "extract_feature_points_arr (snd (forward_propagation ex_conv_broken ex_arr ex_state))
      = extract_feature_points_arr ex_state"
    by simp_all
  note r = forward_not_atomic [OF n, where self = ex_deconv_broken and s = ex_state
      and e = "Raised ''boom''" and enc_arr = "\<lparr>shape = [2, 1, 1, 1], buf = 7\<rparr>"
      and ?s1.0 = "\<lparr>world = \<lparr>heap = [[1, 2, 3, 4], [5, 5, 5, 5, 5, 5], [5, 5], [5, 5],
                          [3, 3, 3, 3, 3, 3], [3, 3, 3, 3], [5, 5, 5, 5, 5, 5], [5, 5]],
                  extern = ()\<rparr>,
        feature_points_arr = Some \<lparr>shape = [2, 1, 1, 1], buf = 3\<rparr>,
        logger = [''Setup Convolutional Auto-Encoder and the parameters.'']\<rparr>"
      and s' = "snd (forward_propagation ex_deconv_broken ex_arr ex_state)",
      THEN conjunct2, THEN mp, OF conjI [OF e2 f2]]
  from r [THEN conjunct1]
  have c: "extract_feature_points_arr (snd (forward_propagation ex_deconv_broken ex_arr ex_state))
      = Some \<lparr>shape = [2, 1, 1, 1], buf = 8\<rparr>"
    by simp
  have k: "\<forall>layer\<in>set (layerable_cnn_list ex_deconv_broken). layer_keeps p layer"
    and k': "keeps p (dropout (opt_params ex_deconv_broken))" for p
    by (simp_all add: keeps_examples example_defs ex_deconv_broken_def)
  from r [THEN conjunct2, THEN conjunct2, THEN mp, OF conjI [OF k conjI [OF k']]]
  have d: "heap (world (snd (forward_propagation ex_deconv_broken ex_arr ex_state))) ! 8 = [5, 5]"
    by (simp add: eval_nat_numeral)
  have "extract_feature_points_arr ex_state = Some \<lparr>shape = [2, 1, 1, 1], buf = 3\<rparr>"
    by (simp add: st extract_feature_points_arr_def)
  moreover from a have "fst (forward_propagation ex_conv_broken ex_arr ex_state) =
      Inl (Raised ''boom'')"
    by (rule arg_cong [where f = fst, THEN trans]) simp
  moreover from f2 have "fst (forward_propagation ex_deconv_broken ex_arr ex_state) =
      Inl (Raised ''boom'')"
    by (rule arg_cong [where f = fst, THEN trans]) simp
  ultimately show ?thesis
    using b c d by simp
qed

section \<open>Shapes\<close>

lemma typed_Inr: "typed n r = (Inr arr, w) \<Longrightarrow> r = (Inr arr, w) \<and> length (shape arr) = n"
  by (auto simp: typed_def split: prod.splits sum.splits if_splits)

lemma and_then_Inr:
  "and_then r f = (Inr arr, w) \<Longrightarrow> \<exists>arr1 w1. r = (Inr arr1, w1) \<and> f arr1 w1 = (Inr arr, w)"
  by (auto simp: and_then_def split: prod.splits sum.splits)

lemma maps_shapeD:
  "maps_shape f a b \<Longrightarrow> shape arr = a \<Longrightarrow> f arr w = (Inr arr', w') \<Longrightarrow> shape arr' = b"
  unfolding maps_shape_def by blast

lemma encode_body_shape:
  assumes "layer_contract layer sh sh'" and "shape arr = sh"
    and "encode_body layer arr w = (Inr arr', w')"
  shows "shape arr' = sh'"
proof -
  from assms(3) obtain a1 w1 where
    c: "typed 4 (convolve layer None arr w) = (Inr a1, w1)" and
    a: "typed 4 (activate (activation_function (layer_graph layer)) a1 w1) = (Inr arr', w')"
    unfolding encode_body_def by (blast dest: and_then_Inr)
  from typed_Inr [OF c] assms(1,2) have "shape a1 = sh'"
    by (auto simp: layer_contract_def dest: maps_shapeD)
  with typed_Inr [OF a] assms(1) show ?thesis
    by (auto simp: layer_contract_def dest: maps_shapeD)
qed

lemma decode_body_shape:
  assumes "layer_contract layer sh sh'" and "shape arr = sh'"
    and "decode_body layer arr w = (Inr arr', w')"
  shows "shape arr' = sh"
proof -
  from assms(3) obtain a2 w2 where
    x: "and_then (typed 4 (backward (activation_function (layer_graph layer)) arr w))
          (\<lambda>arr w. typed 4 (deconvolve layer arr w)) = (Inr a2, w2)" and
    a: "typed 4 (activate (deactivation_function (layer_graph layer)) a2 w2) = (Inr arr', w')"
    unfolding decode_body_def by (blast dest: and_then_Inr)
  from x obtain a1 w1 where
    b: "typed 4 (backward (activation_function (layer_graph layer)) arr w) = (Inr a1, w1)" and
    d: "typed 4 (deconvolve layer a1 w1) = (Inr a2, w2)"
    by (blast dest: and_then_Inr)
  from typed_Inr [OF b] assms(1,2) have "shape a1 = sh'"
    by (auto simp: layer_contract_def dest: maps_shapeD)
  with typed_Inr [OF d] assms(1) have "shape a2 = sh"
    by (auto simp: layer_contract_def dest: maps_shapeD)
  with typed_Inr [OF a] assms(1) show ?thesis
    by (auto simp: layer_contract_def dest: maps_shapeD)
qed

lemma chain_append:
  "chain body (xs @ ys) arr w = and_then (chain body xs arr w) (chain body ys)"
proof (induction xs arbitrary: arr w)
  case Nil
  show ?case by (simp add: and_then_def)
next
  case (Cons x xs)
  show ?case
    by (cases "body x arr w") (auto simp: and_then_def Cons.IH split: sum.splits)
qed

lemma chain_encode_shape:
  "stack_contract layers sh shs \<Longrightarrow> shape arr = sh \<Longrightarrow>
   chain encode_body layers arr w = (Inr arr', w') \<Longrightarrow> shape arr' = last (sh # shs)"
proof (induction layers sh shs arbitrary: arr w rule: stack_contract.induct)
  case (1 sh)
  then show ?case by simp
next
  case (2 layer layers sh sh' shs)
  from "2.prems"(3) obtain a1 w1 where
    b: "encode_body layer arr w = (Inr a1, w1)" and
    c: "chain encode_body layers a1 w1 = (Inr arr', w')"
    by (auto dest: and_then_Inr)
  from "2.prems"(1,2) b have "shape a1 = sh'"
    by (auto intro: encode_body_shape)
  with "2.IH" [OF _ this c] "2.prems"(1) show ?case by simp
qed simp_all

lemma chain_decode_shape:
  "stack_contract layers sh shs \<Longrightarrow> shape arr = last (sh # shs) \<Longrightarrow>
   chain decode_body (rev layers) arr w = (Inr arr', w') \<Longrightarrow> shape arr' = sh"
proof (induction layers sh shs arbitrary: arr' w' rule: stack_contract.induct)
  case (1 sh)
  then show ?case by simp
next
  case (2 layer layers sh sh' shs)
  from "2.prems"(3) obtain a1 w1 where
    c: "chain decode_body (rev layers) arr w = (Inr a1, w1)" and
    b: "decode_body layer a1 w1 = (Inr arr', w')"
    by (auto simp: chain_append and_then_def split: prod.splits sum.splits)
  from "2.prems"(1,2) have "stack_contract layers sh' shs" "shape arr = last (sh' # shs)"
    by simp_all
  from "2.IH" [OF this c] have "shape a1 = sh'" .
  with "2.prems"(1) b show ?case
    by (auto intro: decode_body_shape)
qed simp_all

lemma stack_contract_batch:
  "stack_contract layers sh shs \<Longrightarrow> \<forall>sh'\<in>set shs. hd sh' = hd sh"
  by (induction layers sh shs rule: stack_contract.induct) (auto simp: layer_contract_def)

lemma chain_encode_ndim:
  "length (shape arr) = 4 \<Longrightarrow> chain encode_body layers arr w = (Inr arr', w') \<Longrightarrow>
   length (shape arr') = 4"
proof (induction layers arbitrary: arr w)
  case Nil
  then show ?case by simp
next
  case (Cons layer layers)
  from Cons.prems(2) obtain a1 w1 where
    b: "encode_body layer arr w = (Inr a1, w1)" and
    c: "chain encode_body layers a1 w1 = (Inr arr', w')"
    by (auto dest: and_then_Inr)
  from b have "length (shape a1) = 4"
    unfolding encode_body_def by (blast dest: and_then_Inr typed_Inr)
  from Cons.IH [OF this c] show ?case .
qed

lemma four_dimensions:
  "length sh = 4 \<Longrightarrow> [sh ! 0, sh ! 1, sh ! 2, sh ! 3] = sh"
  by (auto simp: eval_nat_numeral length_Suc_conv)

lemma hidden_activity_shape:
  assumes "length (shape arr) = 4" and "hidden_activity rate f arr w = (Inr arr', w')"
  shows "shape arr' = shape arr"
proof (cases "rate > 0")
  case False
  with assms(2) show ?thesis by (simp add: hidden_activity_def)
next
  case True
  with assms(2) have "shape arr' = [shape arr ! 0, shape arr ! 1, shape arr ! 2, shape arr ! 3]"
    by (auto simp: hidden_activity_def reshape_like_def Let_def
        split: sum.splits prod.splits if_splits)
  with four_dimensions [OF assms(1)] show ?thesis by (simp only:)
qed

lemma forward_propagation_result_shape:
  assumes "length (shape img_arr) = 4"
    and "stack_contract (layerable_cnn_list self) (shape img_arr) shs"
    and "forward_propagation self img_arr s = (Inr out, s')"
  shows "shape out = shape img_arr \<and>
    (\<forall>sh\<in>set shs. hd sh = hd (shape img_arr)) \<and>
    (\<exists>enc_arr s1 arr w3.
       encoder self img_arr s = (Inr enc_arr, s1) \<and>
       shape enc_arr = last (shape img_arr # shs) \<and>
       hd (shape enc_arr) = hd (shape img_arr) \<and>
       hidden_activity (dropout_rate (opt_params self)) (dropout (opt_params self)) enc_arr
         (world (keep_feature_points enc_arr s1)) = (Inr arr, w3) \<and>
       shape arr = shape enc_arr)"
proof -
  obtain r s1 where en: "encoder self img_arr s = (r, s1)"
    by (cases "encoder self img_arr s")
  with assms(1,3) obtain enc_arr where r: "r = Inr enc_arr"
    by (cases r) (auto simp: forward_propagation_def)
  have ce: "chain encode_body (layerable_cnn_list self) img_arr (world s) = (Inr enc_arr, world s1)"
    using layer_loop_chain [of encode_body encode_msg "layerable_cnn_list self" 0 img_arr s]
      en r
    by (simp add: encoder_def)
  have e_shape: "shape enc_arr = last (shape img_arr # shs)"
    by (rule chain_encode_shape [OF assms(2) refl ce])
  have e_dim: "length (shape enc_arr) = 4"
    using assms(1) ce by (rule chain_encode_ndim)
  have batch: "\<forall>sh\<in>set shs. hd sh = hd (shape img_arr)"
    using assms(2) by (rule stack_contract_batch)
  have e_batch: "hd (shape enc_arr) = hd (shape img_arr)"
    using e_shape batch by (cases shs rule: rev_cases) simp_all
  have k: "world (keep_feature_points enc_arr s1) = snd (np_copy enc_arr (world s1))"
    by (simp add: keep_feature_points_def split: prod.splits)
  from forward_propagation_tail(1) [OF assms(1) en [unfolded r], folded k] assms(3)
  have "and_then
      (hidden_activity (dropout_rate (opt_params self)) (dropout (opt_params self)) enc_arr
         (world (keep_feature_points enc_arr s1)))
      (chain decode_body (rev (layerable_cnn_list self))) = (Inr out, world s')"
    by simp
  then obtain arr w3 where
    h: "hidden_activity (dropout_rate (opt_params self)) (dropout (opt_params self)) enc_arr
         (world (keep_feature_points enc_arr s1)) = (Inr arr, w3)" and
    d: "chain decode_body (rev (layerable_cnn_list self)) arr w3 = (Inr out, world s')"
    by (blast dest: and_then_Inr)
  have h_shape: "shape arr = shape enc_arr"
    using e_dim h by (rule hidden_activity_shape)
  have "shape out = shape img_arr"
    using assms(2) _ d by (rule chain_decode_shape) (simp add: h_shape e_shape)
  with batch en r e_shape e_batch h h_shape show ?thesis
    by blast
qed

lemma maps_shape_filled: "maps_shape (filled sh v) a sh"
  by (auto simp: maps_shape_def filled_def)

lemma maps_shape_same: "maps_shape same a a"
  by (auto simp: maps_shape_def same_def)

lemma returns_shapeD:
  "returns_shape f a b \<Longrightarrow> shape arr = a \<Longrightarrow> \<exists>arr' w'. f arr w = (Inr arr', w') \<and> shape arr' = b"
  unfolding returns_shape_def by blast

lemma typed_returns:
  "f arr w = (Inr arr', w') \<Longrightarrow> length (shape arr') = n \<Longrightarrow> typed n (f arr w) = (Inr arr', w')"
  by (simp add: typed_def)

lemma encode_body_returns:
  assumes "layer_returns layer sh sh'" and "shape arr = sh"
  shows "\<exists>arr' w'. encode_body layer arr w = (Inr arr', w') \<and> shape arr' = sh'"
proof -
  from assms have n: "length sh' = 4"
    and c: "returns_shape (convolve layer None) sh sh'"
    and a: "returns_shape (activate (activation_function (layer_graph layer))) sh' sh'"
    by (simp_all add: layer_returns_def)
  from returns_shapeD [OF c assms(2)] obtain a1 w1 where
    c1: "convolve layer None arr w = (Inr a1, w1)" and s1: "shape a1 = sh'"
    by blast
  from returns_shapeD [OF a s1] obtain a2 w2 where
    c2: "activate (activation_function (layer_graph layer)) a1 w1 = (Inr a2, w2)"
    and s2: "shape a2 = sh'"
    by blast
  from c1 s1 c2 s2 n have "encode_body layer arr w = (Inr a2, w2)"
    by (simp add: encode_body_def and_then_def typed_def)
  with s2 show ?thesis by blast
qed

lemma decode_body_returns:
  assumes "layer_returns layer sh sh'" and "length sh = 4" and "shape arr = sh'"
  shows "\<exists>arr' w'. decode_body layer arr w = (Inr arr', w') \<and> shape arr' = sh"
proof -
  from assms have n: "length sh' = 4"
    and b: "returns_shape (backward (activation_function (layer_graph layer))) sh' sh'"
    and d: "returns_shape (deconvolve layer) sh' sh"
    and a: "returns_shape (activate (deactivation_function (layer_graph layer))) sh sh"
    by (simp_all add: layer_returns_def)
  from returns_shapeD [OF b assms(3)] obtain a1 w1 where
    c1: "backward (activation_function (layer_graph layer)) arr w = (Inr a1, w1)"
    and s1: "shape a1 = sh'"
    by blast
  from returns_shapeD [OF d s1] obtain a2 w2 where
    c2: "deconvolve layer a1 w1 = (Inr a2, w2)" and s2: "shape a2 = sh"
    by blast
  from returns_shapeD [OF a s2] obtain a3 w3 where
    c3: "activate (deactivation_function (layer_graph layer)) a2 w2 = (Inr a3, w3)"
    and s3: "shape a3 = sh"
    by blast
  from c1 s1 c2 s2 c3 s3 n assms(2) have "decode_body layer arr w = (Inr a3, w3)"
    by (simp add: decode_body_def and_then_def typed_def)
  with s3 show ?thesis by blast
qed

lemma chain_encode_returns:
  "stack_returns layers sh shs \<Longrightarrow> shape arr = sh \<Longrightarrow>
   \<exists>arr' w'. chain encode_body layers arr w = (Inr arr', w') \<and> shape arr' = last (sh # shs)"
proof (induction layers sh shs arbitrary: arr w rule: stack_returns.induct)
  case (1 sh)
  then show ?case by simp
next
  case (2 layer layers sh sh' shs)
  from "2.prems" encode_body_returns [of layer sh sh' arr w] obtain a1 w1 where
    b: "encode_body layer arr w = (Inr a1, w1)" and s: "shape a1 = sh'"
    by auto
  from "2.IH" [OF _ s, of w1] "2.prems"(1) obtain arr' w' where
    "chain encode_body layers a1 w1 = (Inr arr', w')" "shape arr' = last (sh' # shs)"
    by auto
  with b show ?case by (simp add: and_then_def)
qed simp_all

lemma chain_decode_returns:
  "stack_returns layers sh shs \<Longrightarrow> length sh = 4 \<Longrightarrow> shape arr = last (sh # shs) \<Longrightarrow>
   \<exists>arr' w'. chain decode_body (rev layers) arr w = (Inr arr', w') \<and> shape arr' = sh"
proof (induction layers sh shs rule: stack_returns.induct)
  case (1 sh)
  then show ?case by simp
next
  case (2 layer layers sh sh' shs)
  from "2.prems"(1) have l: "layer_returns layer sh sh'" and r: "stack_returns layers sh' shs"
    by simp_all
  from l have n: "length sh' = 4" by (simp add: layer_returns_def)
  from "2.prems"(3) have "shape arr = last (sh' # shs)" by simp
  from "2.IH" [OF r n this] obtain a1 w1 where
    c: "chain decode_body (rev layers) arr w = (Inr a1, w1)" and s: "shape a1 = sh'"
    by blast
  from decode_body_returns [OF l "2.prems"(2) s, of w1] obtain arr' w' where
    "decode_body layer a1 w1 = (Inr arr', w')" "shape arr' = sh"
    by blast
  with c show ?case by (simp add: chain_append and_then_def)
qed simp_all

lemma prod_list_four:
  "length sh = 4 \<Longrightarrow> prod_list sh = sh ! 0 * (sh ! 1 * (sh ! 2 * sh ! 3))"
  by (auto simp: eval_nat_numeral length_Suc_conv)

lemma hidden_activity_returns:
  assumes "length (shape arr) = 4"
    and "rate \<le> 0 \<or> 0 < hd (shape arr) \<and> returns_same_shape f"
  shows "\<exists>arr' w'. hidden_activity rate f arr w = (Inr arr', w')"
proof (cases "rate > 0")
  case False
  then show ?thesis by (simp add: hidden_activity_def)
next
  case True
  with assms(2) have b: "0 < hd (shape arr)" and f: "returns_same_shape f"
    by simp_all
  let ?b = "shape arr ! 0"
  let ?h = "arr\<lparr>shape := [?b, size_of arr div ?b]\<rparr>"
  from assms(1) b have b0: "0 < ?b"
    by (cases "shape arr") simp_all
  have d: "size_of arr = ?b * (shape arr ! 1 * (shape arr ! 2 * shape arr ! 3))"
    using assms(1) by (simp add: size_of_def prod_list_four)
  then have m: "size_of arr mod ?b = 0" by simp
  from b0 m have rr: "(reshape_rows arr :: 'c exn + ndarray) = Inr ?h"
    by (simp add: reshape_rows_def Let_def)
  from f obtain h' w' where r: "f ?h w = (Inr h', w')" and s: "shape h' = shape ?h"
    unfolding returns_same_shape_def by blast
  from s have t: "typed 2 (f ?h w) = (Inr h', w')"
    using r by (simp add: typed_def)
  from s b0 d have "size_of h' = prod_list [shape arr ! 0, shape arr ! 1, shape arr ! 2, shape arr ! 3]"
    by (simp add: size_of_def)
  then have "\<exists>a. (reshape_like h' arr :: 'c exn + ndarray) = Inr a"
    by (simp add: reshape_like_def Let_def)
  with True rr t show ?thesis
    by (auto simp: hidden_activity_def)
qed

lemma forward_propagation_returns:
  assumes "length (shape img_arr) = 4"
    and "stack_returns (layerable_cnn_list self) (shape img_arr) shs"
    and "dropout_rate (opt_params self) \<le> 0 \<or>
         0 < hd (shape img_arr) \<and> returns_same_shape (dropout (opt_params self))"
    and "\<forall>sh\<in>set shs. hd sh = hd (shape img_arr)"
  shows "\<exists>out s'. forward_propagation self img_arr s = (Inr out, s')"
proof -
  from chain_encode_returns [OF assms(2) refl, of "world s"] obtain enc_arr w1 where
    ce: "chain encode_body (layerable_cnn_list self) img_arr (world s) = (Inr enc_arr, w1)"
    and es: "shape enc_arr = last (shape img_arr # shs)"
    by blast
  obtain r s1 where en: "encoder self img_arr s = (r, s1)"
    by (cases "encoder self img_arr s")
  with ce layer_loop_chain [of encode_body encode_msg "layerable_cnn_list self" 0 img_arr s]
  have r: "r = Inr enc_arr"
    by (simp add: encoder_def)
  have e_dim: "length (shape enc_arr) = 4"
    using assms(1) ce by (rule chain_encode_ndim)
  have e_batch: "hd (shape enc_arr) = hd (shape img_arr)"
    using es assms(4) by (cases shs rule: rev_cases) simp_all
  let ?w2 = "snd (np_copy enc_arr (world s1))"
  from hidden_activity_returns [OF e_dim, of "dropout_rate (opt_params self)"
      "dropout (opt_params self)" ?w2] assms(3) e_batch
  obtain arr w3 where
    h: "hidden_activity (dropout_rate (opt_params self)) (dropout (opt_params self)) enc_arr ?w2
        = (Inr arr, w3)"
    by auto
  have "shape arr = last (shape img_arr # shs)"
    using hidden_activity_shape [OF e_dim h] es by simp
  from chain_decode_returns [OF assms(2,1) this, of w3] obtain out w4 where
    d: "chain decode_body (rev (layerable_cnn_list self)) arr w3 = (Inr out, w4)"
    by blast
  from forward_propagation_tail(1) [OF assms(1) en [unfolded r]] h d
  have "fst (forward_propagation self img_arr s) = Inr out"
    by (simp add: and_then_def)
  then show ?thesis
    by (cases "forward_propagation self img_arr s") auto
qed

lemma returns_shape_filled: "returns_shape (filled sh v) a sh"
  by (simp add: returns_shape_def filled_def)

lemma returns_shape_same: "returns_shape same a a"
  by (simp add: returns_shape_def same_def)

lemma returns_same_shape_zeroing: "returns_same_shape zeroing"
  by (simp add: returns_same_shape_def zeroing_def)

text \<open>
  C5. Let the layers keep the shape contract from the shape of a four-dimensional
  input on. Then every array that \<^verbatim>\<open>forward_propagation\<close> returns has the shape of the
  input, and the running array has the batch dimension of the input after the encoder
  loop (whose result has the last output shape of the stack) and after the dropout
  stage, as every output shape of the stack has. And the call does return when the
  methods of the layers return on the shapes of the contract and, with a positive rate,
  the batch is not empty and \<^verbatim>\<open>dropout\<close> returns an array of the shape it was given.
\<close>

theorem forward_propagation_shape:
  assumes "length (shape img_arr) = 4"
    and "stack_contract (layerable_cnn_list self) (shape img_arr) shs"
  shows "(\<forall>out s'. forward_propagation self img_arr s = (Inr out, s') \<longrightarrow>
      shape out = shape img_arr \<and>
      (\<forall>sh\<in>set shs. hd sh = hd (shape img_arr)) \<and>
      (\<exists>enc_arr s1 arr w3.
         encoder self img_arr s = (Inr enc_arr, s1) \<and>
         shape enc_arr = last (shape img_arr # shs) \<and>
         hd (shape enc_arr) = hd (shape img_arr) \<and>
         hidden_activity (dropout_rate (opt_params self)) (dropout (opt_params self)) enc_arr
           (world (keep_feature_points enc_arr s1)) = (Inr arr, w3) \<and>
         shape arr = shape enc_arr)) \<and>
    (stack_returns (layerable_cnn_list self) (shape img_arr) shs \<and>
     (dropout_rate (opt_params self) \<le> 0 \<or>
      0 < hd (shape img_arr) \<and> returns_same_shape (dropout (opt_params self))) \<longrightarrow>
     (\<exists>out s'. forward_propagation self img_arr s = (Inr out, s') \<and>
        shape out = shape img_arr))"
proof (intro conjI allI impI)
  fix out s'
  assume "forward_propagation self img_arr s = (Inr out, s')"
  from forward_propagation_result_shape [OF assms this]
  show "shape out = shape img_arr"
    and "\<forall>sh\<in>set shs. hd sh = hd (shape img_arr)"
    and "\<exists>enc_arr s1 arr w3.
         encoder self img_arr s = (Inr enc_arr, s1) \<and>
         shape enc_arr = last (shape img_arr # shs) \<and>
         hd (shape enc_arr) = hd (shape img_arr) \<and>
         hidden_activity (dropout_rate (opt_params self)) (dropout (opt_params self)) enc_arr
           (world (keep_feature_points enc_arr s1)) = (Inr arr, w3) \<and>
         shape arr = shape enc_arr"
    by blast+
next
  assume a: "stack_returns (layerable_cnn_list self) (shape img_arr) shs \<and>
     (dropout_rate (opt_params self) \<le> 0 \<or>
      0 < hd (shape img_arr) \<and> returns_same_shape (dropout (opt_params self)))"
  have "\<forall>sh\<in>set shs. hd sh = hd (shape img_arr)"
    using assms(2) by (rule stack_contract_batch)
  with a forward_propagation_returns [OF assms(1), of self shs s]
  obtain out s' where r: "forward_propagation self img_arr s = (Inr out, s')"
    by blast
  from forward_propagation_result_shape [OF assms r] r
  show "\<exists>out s'. forward_propagation self img_arr s = (Inr out, s') \<and>
        shape out = shape img_arr"
    by blast
qed

theorem forward_propagation_shape_witness:
  "fst (forward_propagation ex_encoder ex_arr (init ex_world)) =
     Inr \<lparr>shape = [2, 1, 1, 2], buf = 5\<rparr> \<and>
   shape ex_arr = [2, 1, 1, 2] \<and>
   stack_contract (layerable_cnn_list ex_encoder) (shape ex_arr) [[2, 3, 1, 1], [2, 1, 1, 1]] \<and>
   stack_returns (layerable_cnn_list ex_encoder) (shape ex_arr) [[2, 3, 1, 1], [2, 1, 1, 1]] \<and>
   0 < dropout_rate (opt_params ex_encoder) \<and> 0 < hd (shape ex_arr) \<and>
   returns_same_shape (dropout (opt_params ex_encoder)) \<and>
   (\<exists>out s'. forward_propagation ex_encoder ex_arr (init ex_world) = (Inr out, s') \<and>
      shape out = shape ex_arr)"
proof -
  have run: "forward_propagation ex_encoder ex_arr (init ex_world) =
      (Inr \<lparr>shape = [2, 1, 1, 2], buf = 5\<rparr>,
       snd (forward_propagation ex_encoder ex_arr (init ex_world)))"
    by (simp add: primitives class_defs example_defs layer_loop.simps)
  have n: "length (shape ex_arr) = 4"
    by (simp add: ex_arr_def)
  have c: "stack_contract (layerable_cnn_list ex_encoder) (shape ex_arr)
      [[2, 3, 1, 1], [2, 1, 1, 1]]"
    by (simp add: ex_encoder_def ex_layer1_def ex_layer2_def plain_layer_def same_function_def
        ex_arr_def layer_contract_def maps_shape_filled maps_shape_same)
  have t: "stack_returns (layerable_cnn_list ex_encoder) (shape ex_arr)
      [[2, 3, 1, 1], [2, 1, 1, 1]]"
    by (simp add: ex_encoder_def ex_layer1_def ex_layer2_def plain_layer_def same_function_def
        ex_arr_def layer_returns_def returns_shape_filled returns_shape_same)
  have d: "0 < dropout_rate (opt_params ex_encoder)" "0 < hd (shape ex_arr)"
    "returns_same_shape (dropout (opt_params ex_encoder))"
    by (simp_all add: ex_encoder_def half_dropout_def ex_arr_def returns_same_shape_zeroing)
  note inst = forward_propagation_shape [OF n c, of "init ex_world"]
  from inst [THEN conjunct1, rule_format, OF run]
  have "shape \<lparr>shape = [2, 1, 1, 2], buf = 5\<rparr> = shape ex_arr"
    by (rule conjunct1)
  then have "shape ex_arr = [2, 1, 1, 2]"
    by simp
  moreover have "fst (forward_propagation ex_encoder ex_arr (init ex_world)) =
      Inr \<lparr>shape = [2, 1, 1, 2], buf = 5\<rparr>"
    by (rule arg_cong [where f = fst, THEN trans], rule run) simp
  moreover from inst [THEN conjunct2] t d
  have "\<exists>out s'. forward_propagation ex_encoder ex_arr (init ex_world) = (Inr out, s') \<and>
      shape out = shape ex_arr"
    by blast
  ultimately show ?thesis
    using c t d by (simp only: simp_thms)
qed

end
